theory Spec2Isabelle
  imports Complex_Main "HOL-Library.Multiset" "HOL-Library.Log_Nat"
begin

section \<open>Core types (types.py)\<close>

text \<open>
  Python floats are modelled as real numbers and Python ints as \<open>int\<close>; identifiers
  (\<open>ID = str\<close>) are strings. The exceptions a function can raise are values of
  \<open>error\<close>; a function that can raise returns \<open>error + 'a\<close>.
\<close>

type_synonym ID = string

datatype error =
    InvalidGeometryError
  | InvalidStyleError
  | ValidationError
  | ValueError
  | KeyError
  | TypeError
  | IndexError
  | RecursionError
  | OverflowError

datatype ShapeType = RECTANGLE | CIRCLE | ELLIPSE | LINE | POLYLINE | POLYGON | PATH | GROUP

datatype BlendMode =
    NORMAL | MULTIPLY | SCREEN | OVERLAY | DARKEN | LIGHTEN | COLOR_DODGE | COLOR_BURN
  | HARD_LIGHT | SOFT_LIGHT | DIFFERENCE | EXCLUSION

datatype LineCap = BUTT | ROUND_cap | SQUARE

datatype LineJoin = MITER | ROUND_join | BEVEL

datatype FillType = SOLID | LINEAR_GRADIENT | RADIAL_GRADIENT | PATTERN

section \<open>Strings\<close>

definition is_hex_digit :: "char \<Rightarrow> bool" where
  "is_hex_digit c \<longleftrightarrow> c \<in> set ''0123456789ABCDEFabcdef''"

text \<open>\<open>str.upper\<close> and \<open>str.lower\<close> on ASCII letters, the only letters they are applied
  to here; other characters are left alone.\<close>

definition upper_char :: "char \<Rightarrow> char" where
  "upper_char c =
     (case map_of (zip ''abcdefghijklmnopqrstuvwxyz'' ''ABCDEFGHIJKLMNOPQRSTUVWXYZ'') c of
        Some u \<Rightarrow> u | None \<Rightarrow> c)"

definition lower_char :: "char \<Rightarrow> char" where
  "lower_char c =
     (case map_of (zip ''ABCDEFGHIJKLMNOPQRSTUVWXYZ'' ''abcdefghijklmnopqrstuvwxyz'') c of
        Some l \<Rightarrow> l | None \<Rightarrow> c)"

definition upper :: "string \<Rightarrow> string" where
  "upper s = map upper_char s"

definition lower :: "string \<Rightarrow> string" where
  "lower s = map lower_char s"

text \<open>
  A string is a sequence of code points below 256. The code points \<open>str.strip()\<close> and
  \<open>int()\<close> skip, in that range: tab, newline, vertical tab, form feed, carriage return,
  the separators 0x1C..0x1F, space, next line (0x85) and no-break space (0xA0).
\<close>

definition is_space :: "char \<Rightarrow> bool" where
  "is_space c =
     (let n = (of_char c :: nat)
      in (9 \<le> n \<and> n \<le> 13) \<or> (28 \<le> n \<and> n \<le> 32) \<or> n = 133 \<or> n = 160)"

definition strip :: "string \<Rightarrow> string" where
  "strip s = rev (dropWhile is_space (rev (dropWhile is_space s)))"

text \<open>
  \<open>re.match(r'^[0-9A-Fa-f]+$', v)\<close>: one or more hex digits up to the end of the string,
  where \<open>$\<close> also matches just before a final newline.
\<close>

definition re_match_hex :: "string \<Rightarrow> bool" where
  "re_match_hex v =
     (let w = (if v \<noteq> [] \<and> last v = CHR 0x0A then butlast v else v)
      in w \<noteq> [] \<and> list_all is_hex_digit w)"

definition hex_digit_val :: "char \<Rightarrow> nat" where
  "hex_digit_val c =
     (let n = (of_char c :: nat) in
      if 48 \<le> n \<and> n \<le> 57 then n - 48
      else if 65 \<le> n \<and> n \<le> 70 then n - 55
      else n - 87)"

text \<open>
  \<open>int(s, 16)\<close> on a string of hex digits with optional surrounding whitespace. The
  sign, \<open>0x\<close> prefix and underscore forms that \<open>int\<close> also accepts are not modelled:
  they contain characters that \<open>validate_hex_color\<close> never stores.
\<close>

definition int16 :: "string \<Rightarrow> error + int" where
  "int16 s =
     (let t = strip s in
      if t \<noteq> [] \<and> list_all is_hex_digit t
      then Inr (int (foldl (\<lambda>acc c. 16 * acc + hex_digit_val c) 0 t))
      else Inl ValueError)"

definition hex_char :: "nat \<Rightarrow> char" where
  "hex_char d = ''0123456789abcdef'' ! d"

fun hex_digits :: "nat \<Rightarrow> string" where
  "hex_digits n = (if n < 16 then [hex_char n] else hex_digits (n div 16) @ [hex_char (n mod 16)])"

declare hex_digits.simps [simp del]

text \<open>\<open>format(n, '02x')\<close>: lowercase hex, zero-padded to width 2, the sign counted in the width.\<close>

definition format_02x :: "int \<Rightarrow> string" where
  "format_02x n =
     (if n < 0 then CHR ''-'' # hex_digits (nat (- n))
      else (let ds = hex_digits (nat n) in replicate (2 - length ds) CHR ''0'' @ ds))"

text \<open>Python's \<open>round(x)\<close> to an int: to the nearest integer, a tie to the even one.\<close>

definition py_round :: "real \<Rightarrow> int" where
  "py_round v =
     (let f = \<lfloor>v\<rfloor>; d = v - of_int f in
      if d < 1 / 2 then f else if 1 / 2 < d then f + 1 else if even f then f else f + 1)"

section \<open>Colours (styles.py)\<close>

record RGBColor =
  rgb_r :: int
  rgb_g :: int
  rgb_b :: int

record RGBAColor =
  rgba_r :: int
  rgba_g :: int
  rgba_b :: int
  rgba_a :: real

record HSLColor =
  hsl_h :: real
  hsl_s :: real
  hsl_l :: real

record HexColor =
  hex_value :: string

text \<open>The constructors check the \<open>Field(ge=..., le=...)\<close> bounds; pydantic reports a
  violated bound as its own \<open>ValidationError\<close>.\<close>

definition RGBColor_new :: "int \<Rightarrow> int \<Rightarrow> int \<Rightarrow> error + RGBColor" where
  "RGBColor_new r g b =
     (if 0 \<le> r \<and> r \<le> 255 \<and> 0 \<le> g \<and> g \<le> 255 \<and> 0 \<le> b \<and> b \<le> 255
      then Inr \<lparr>rgb_r = r, rgb_g = g, rgb_b = b\<rparr> else Inl ValidationError)"

definition RGBAColor_new :: "int \<Rightarrow> int \<Rightarrow> int \<Rightarrow> real \<Rightarrow> error + RGBAColor" where
  "RGBAColor_new r g b a =
     (if 0 \<le> r \<and> r \<le> 255 \<and> 0 \<le> g \<and> g \<le> 255 \<and> 0 \<le> b \<and> b \<le> 255 \<and> 0 \<le> a \<and> a \<le> 1
      then Inr \<lparr>rgba_r = r, rgba_g = g, rgba_b = b, rgba_a = a\<rparr> else Inl ValidationError)"

definition RGBColor_to_hex :: "RGBColor \<Rightarrow> string" where
  "RGBColor_to_hex c = CHR ''#'' # format_02x (rgb_r c) @ format_02x (rgb_g c) @ format_02x (rgb_b c)"

definition RGBAColor_to_hex :: "RGBAColor \<Rightarrow> string" where
  "RGBAColor_to_hex c =
     (let alpha_hex = format_02x (py_round (rgba_a c * 255)) in
      CHR ''#'' # format_02x (rgba_r c) @ format_02x (rgba_g c) @ format_02x (rgba_b c) @ alpha_hex)"

text \<open>\<open>if v.startswith('#'): v = v[1:]\<close>\<close>

definition strip_hash :: "string \<Rightarrow> string" where
  "strip_hash v = (if v \<noteq> [] \<and> hd v = CHR ''#'' then tl v else v)"

definition validate_hex_color :: "string \<Rightarrow> error + string" where
  "validate_hex_color v0 =
     (let v = strip_hash v0 in
      if length v \<noteq> 6 \<and> length v \<noteq> 8 then Inl InvalidStyleError
      else if \<not> re_match_hex v then Inl InvalidStyleError
      else Inr (CHR ''#'' # upper v))"

definition HexColor_new :: "string \<Rightarrow> error + HexColor" where
  "HexColor_new v = (case validate_hex_color v of Inl e \<Rightarrow> Inl e | Inr s \<Rightarrow> Inr \<lparr>hex_value = s\<rparr>)"

definition HexColor_to_rgb :: "HexColor \<Rightarrow> error + RGBColor" where
  "HexColor_to_rgb h =
     (let hv = tl (hex_value h) in
      (case int16 (take 2 hv) of Inl e \<Rightarrow> Inl e | Inr r \<Rightarrow>
        (case int16 (take 2 (drop 2 hv)) of Inl e \<Rightarrow> Inl e | Inr g \<Rightarrow>
          (case int16 (take 2 (drop 4 hv)) of Inl e \<Rightarrow> Inl e | Inr b \<Rightarrow>
            RGBColor_new r g b))))"

definition HexColor_to_rgba :: "HexColor \<Rightarrow> error + RGBAColor" where
  "HexColor_to_rgba h =
     (let hv = tl (hex_value h) in
      (case int16 (take 2 hv) of Inl e \<Rightarrow> Inl e | Inr r \<Rightarrow>
        (case int16 (take 2 (drop 2 hv)) of Inl e \<Rightarrow> Inl e | Inr g \<Rightarrow>
          (case int16 (take 2 (drop 4 hv)) of Inl e \<Rightarrow> Inl e | Inr b \<Rightarrow>
            (if length hv = 8
             then (case int16 (take 2 (drop 6 hv)) of Inl e \<Rightarrow> Inl e
                   | Inr a \<Rightarrow> RGBAColor_new r g b (of_int a / 255))
             else RGBAColor_new r g b 1)))))"

datatype Color = RGB RGBColor | RGBA RGBAColor | HSL HSLColor | Hex HexColor

text \<open>The inputs the round-trip property speaks about, and the canonical form it names.\<close>

definition valid_hex_input :: "string \<Rightarrow> bool" where
  "valid_hex_input s \<longleftrightarrow>
     (length (strip_hash s) = 6 \<or> length (strip_hash s) = 8) \<and> list_all is_hex_digit (strip_hash s)"

definition canonical_hex :: "string \<Rightarrow> bool" where
  "canonical_hex t \<longleftrightarrow>
     t \<noteq> [] \<and> hd t = CHR ''#'' \<and> (length (tl t) = 6 \<or> length (tl t) = 8) \<and>
     list_all (\<lambda>c. c \<in> set ''0123456789ABCDEF'') (tl t)"

section \<open>Gradients, fills, strokes and effects (styles.py)\<close>

record GradientStop =
  stop_position :: real
  stop_color :: Color

definition GradientStop_new :: "real \<Rightarrow> Color \<Rightarrow> error + GradientStop" where
  "GradientStop_new p c =
     (if 0 \<le> p \<and> p \<le> 1 then Inr \<lparr>stop_position = p, stop_color = c\<rparr> else Inl ValidationError)"

record LinearGradient =
  lg_id :: ID
  start_x :: real
  start_y :: real
  end_x :: real
  end_y :: real
  lg_stops :: "GradientStop list"

record RadialGradient =
  rg_id :: ID
  center_x :: real
  center_y :: real
  rg_radius :: real
  rg_stops :: "GradientStop list"

text \<open>
  The field validator of \<open>stops\<close>, the same in both gradient classes. \<open>sorted\<close> is a
  stable sort, as \<open>sort_key\<close> is; \<open>len(set(positions)) != len(positions)\<close> is the
  duplicate test.
\<close>

definition validate_stops :: "GradientStop list \<Rightarrow> error + GradientStop list" where
  "validate_stops v =
     (if length v < 2 then Inl InvalidStyleError
      else
        (let sorted_stops = sort_key stop_position v;
             positions = map stop_position sorted_stops
         in if card (set positions) \<noteq> length positions then Inl InvalidStyleError
            else Inr sorted_stops))"

text \<open>
  Construction. The field is declared \<open>Field(..., min_length=2)\<close>: pydantic checks that
  bound before it calls the field validator and reports a shorter list as its own
  \<open>ValidationError\<close> (tests/test\_styles.py, test\_gradient\_validation). The identifier
  \<open>generate_id()\<close> returns is a parameter. An exception of the validator leaves
  construction at once; a violated bound of another field is reported at the end.
\<close>

definition LinearGradient_new ::
  "ID \<Rightarrow> real \<Rightarrow> real \<Rightarrow> real \<Rightarrow> real \<Rightarrow> GradientStop list \<Rightarrow> error + LinearGradient" where
  "LinearGradient_new i sx sy ex ey stops =
     (if length stops < 2 then Inl ValidationError
      else (case validate_stops stops of
              Inl e \<Rightarrow> Inl e
            | Inr ss \<Rightarrow> Inr \<lparr>lg_id = i, start_x = sx, start_y = sy, end_x = ex, end_y = ey, lg_stops = ss\<rparr>))"

definition RadialGradient_new ::
  "ID \<Rightarrow> real \<Rightarrow> real \<Rightarrow> real \<Rightarrow> GradientStop list \<Rightarrow> error + RadialGradient" where
  "RadialGradient_new i cx cy rad stops =
     (if length stops < 2 then Inl ValidationError
      else (case validate_stops stops of
              Inl e \<Rightarrow> Inl e
            | Inr ss \<Rightarrow>
                if rad < 0 then Inl ValidationError
                else Inr \<lparr>rg_id = i, center_x = cx, center_y = cy, rg_radius = rad, rg_stops = ss\<rparr>))"

record PatternFill =
  pf_id :: ID
  image_data :: string
  pf_width :: real
  pf_height :: real
  repeat_x :: bool
  repeat_y :: bool

record FillProperties =
  fill_type :: FillType
  fill_color :: "Color option"
  linear_gradient :: "LinearGradient option"
  radial_gradient :: "RadialGradient option"
  pattern :: "PatternFill option"
  fill_opacity :: real

text \<open>
  The model validator (mode \<open>after\<close>). The payloads are pydantic models, which are
  always truthy, so \<open>not self.color\<close> holds exactly when the field is \<open>None\<close>.
\<close>

definition validate_fill_consistency :: "FillProperties \<Rightarrow> error + FillProperties" where
  "validate_fill_consistency f =
     (if fill_type f = SOLID \<and> fill_color f = None then Inl InvalidStyleError
      else if fill_type f = LINEAR_GRADIENT \<and> linear_gradient f = None then Inl InvalidStyleError
      else if fill_type f = RADIAL_GRADIENT \<and> radial_gradient f = None then Inl InvalidStyleError
      else if fill_type f = PATTERN \<and> pattern f = None then Inl InvalidStyleError
      else
        (let f1 = (if fill_type f \<noteq> SOLID then f\<lparr>fill_color := None\<rparr> else f);
             f2 = (if fill_type f1 \<noteq> LINEAR_GRADIENT then f1\<lparr>linear_gradient := None\<rparr> else f1);
             f3 = (if fill_type f2 \<noteq> RADIAL_GRADIENT then f2\<lparr>radial_gradient := None\<rparr> else f2);
             f4 = (if fill_type f3 \<noteq> PATTERN then f3\<lparr>pattern := None\<rparr> else f3)
         in Inr f4))"

text \<open>Construction: the field bounds first, then the model validator.\<close>

definition FillProperties_new ::
  "FillType \<Rightarrow> Color option \<Rightarrow> LinearGradient option \<Rightarrow> RadialGradient option \<Rightarrow>
   PatternFill option \<Rightarrow> real \<Rightarrow> error + FillProperties" where
  "FillProperties_new t c lg rg p opac =
     (if 0 \<le> opac \<and> opac \<le> 1
      then validate_fill_consistency
             \<lparr>fill_type = t, fill_color = c, linear_gradient = lg, radial_gradient = rg,
              pattern = p, fill_opacity = opac\<rparr>
      else Inl ValidationError)"

text \<open>
  Attribute assignment \<open>fill.type = t\<close>. No class of the library sets
  \<open>validate_assignment\<close> (there is no \<open>model_config\<close> anywhere in the package), so
  pydantic stores the value and runs no validator: the assignment cannot raise.
\<close>

definition FillProperties_set_type :: "FillProperties \<Rightarrow> FillType \<Rightarrow> error + FillProperties" where
  "FillProperties_set_type f t = Inr (f\<lparr>fill_type := t\<rparr>)"

text \<open>The payload field that belongs to a tag, and the claim's "exactly that field populated".\<close>

definition payload_present :: "FillType \<Rightarrow> FillProperties \<Rightarrow> bool" where
  "payload_present t f =
     (case t of
        SOLID \<Rightarrow> fill_color f \<noteq> None
      | LINEAR_GRADIENT \<Rightarrow> linear_gradient f \<noteq> None
      | RADIAL_GRADIENT \<Rightarrow> radial_gradient f \<noteq> None
      | PATTERN \<Rightarrow> pattern f \<noteq> None)"

definition exactly_populated :: "FillProperties \<Rightarrow> bool" where
  "exactly_populated f \<longleftrightarrow>
     (fill_color f \<noteq> None) = (fill_type f = SOLID) \<and>
     (linear_gradient f \<noteq> None) = (fill_type f = LINEAR_GRADIENT) \<and>
     (radial_gradient f \<noteq> None) = (fill_type f = RADIAL_GRADIENT) \<and>
     (pattern f \<noteq> None) = (fill_type f = PATTERN)"

record StrokeProperties =
  stroke_color :: Color
  stroke_width :: real
  cap :: LineCap
  join :: LineJoin
  miter_limit :: real
  dash_array :: "real list option"
  dash_offset :: real
  stroke_opacity :: real

definition validate_dash_array :: "real list option \<Rightarrow> error + real list option" where
  "validate_dash_array v =
     (case v of
        None \<Rightarrow> Inr None
      | Some xs \<Rightarrow>
          if length xs = 0 then Inr None
          else if list_ex (\<lambda>val. val < 0) xs then Inl InvalidStyleError
          else Inr (Some xs))"

record ShadowEffect =
  offset_x :: real
  offset_y :: real
  blur_radius :: real
  spread_radius :: real
  shadow_color :: Color
  inset :: bool

record BlurEffect =
  blur_effect_radius :: real

record Effects =
  shadows :: "ShadowEffect list"
  blur :: "BlurEffect option"
  effects_opacity :: real
  effects_blend_mode :: BlendMode

section \<open>Shapes (shapes.py)\<close>

text \<open>
  The values a geometry dictionary holds: \<open>PInt\<close> a Python int (a bool is an int:
  \<open>True\<close> is 1), \<open>PFloat\<close> a finite float, taken as the real number it denotes (the
  infinities and NaN have no value here), \<open>PStr\<close> a string, \<open>PList\<close> and \<open>PTuple\<close> lists
  and tuples, \<open>PNone\<close> the value \<open>None\<close>.
\<close>

datatype pyval = PInt int | PFloat real | PStr string | PList "pyval list" | PTuple "pyval list" | PNone

text \<open>
  A Python number is an int or a float; \<open>number_of\<close> is the test
  \<open>isinstance(v, (int, float))\<close>. Python compares an int with a float by their exact
  values, which \<open>value_of\<close> gives.
\<close>

datatype number = NInt int | NFloat real

definition number_of :: "pyval \<Rightarrow> number option" where
  "number_of v = (case v of PInt n \<Rightarrow> Some (NInt n) | PFloat a \<Rightarrow> Some (NFloat a) | _ \<Rightarrow> None)"

definition value_of :: "number \<Rightarrow> real" where
  "value_of a = (case a of NInt n \<Rightarrow> of_int n | NFloat f \<Rightarrow> f)"

type_synonym GeometryDict = "string \<rightharpoonup> pyval"

record Transform =
  t_x :: real
  t_y :: real
  rotation :: real
  scale_x :: real
  scale_y :: real
  skew_x :: real
  skew_y :: real

record StyleProperties =
  fill :: "FillProperties option"
  stroke :: "StrokeProperties option"
  effects :: "Effects option"

record Shape =
  shape_id :: ID
  shape_type :: ShapeType
  geometry :: GeometryDict
  style :: "StyleProperties option"
  transform :: "Transform option"
  shape_visible :: bool
  shape_locked :: bool
  shape_name :: "string option"

definition default_Transform :: Transform where
  "default_Transform =
     \<lparr>t_x = 0, t_y = 0, rotation = 0, scale_x = 1, scale_y = 1, skew_x = 0, skew_y = 0\<rparr>"

definition default_StyleProperties :: StyleProperties where
  "default_StyleProperties = \<lparr>fill = None, stroke = None, effects = None\<rparr>"

text \<open>\<open>isinstance(v, (int, float))\<close> together with a comparison against zero; a missing
  key read with \<open>.get\<close> is \<open>None\<close>, which is no number.\<close>

definition is_number :: "pyval option \<Rightarrow> bool" where
  "is_number v = (case v of Some w \<Rightarrow> number_of w \<noteq> None | None \<Rightarrow> False)"

definition positive_number :: "pyval option \<Rightarrow> bool" where
  "positive_number v =
     (case v of
        Some w \<Rightarrow> (case number_of w of Some a \<Rightarrow> 0 < value_of a | None \<Rightarrow> False)
      | None \<Rightarrow> False)"

definition non_negative_number :: "pyval option \<Rightarrow> bool" where
  "non_negative_number v =
     (case v of
        Some w \<Rightarrow> (case number_of w of Some a \<Rightarrow> 0 \<le> value_of a | None \<Rightarrow> False)
      | None \<Rightarrow> False)"

text \<open>Each validator returns the exception it raises, or \<open>None\<close> when it returns normally.\<close>

definition validate_rectangle_geometry :: "GeometryDict \<Rightarrow> error option" where
  "validate_rectangle_geometry g =
     (if g ''width'' = None \<or> g ''height'' = None then Some InvalidGeometryError
      else if \<not> positive_number (g ''width'') then Some InvalidGeometryError
      else if \<not> positive_number (g ''height'') then Some InvalidGeometryError
      else if g ''corner_radius'' \<noteq> None \<and> \<not> non_negative_number (g ''corner_radius'')
      then Some InvalidGeometryError
      else None)"

definition validate_circle_geometry :: "GeometryDict \<Rightarrow> error option" where
  "validate_circle_geometry g =
     (if g ''radius'' = None then Some InvalidGeometryError
      else if \<not> positive_number (g ''radius'') then Some InvalidGeometryError
      else None)"

definition validate_ellipse_geometry :: "GeometryDict \<Rightarrow> error option" where
  "validate_ellipse_geometry g =
     (if g ''rx'' = None \<or> g ''ry'' = None then Some InvalidGeometryError
      else if \<not> positive_number (g ''rx'') then Some InvalidGeometryError
      else if \<not> positive_number (g ''ry'') then Some InvalidGeometryError
      else None)"

definition validate_line_geometry :: "GeometryDict \<Rightarrow> error option" where
  "validate_line_geometry g =
     (if g ''x1'' = None \<or> g ''y1'' = None \<or> g ''x2'' = None \<or> g ''y2'' = None
      then Some InvalidGeometryError
      else if \<not> list_all (\<lambda>field. is_number (g field)) [''x1'', ''y1'', ''x2'', ''y2'']
      then Some InvalidGeometryError
      else None)"

text \<open>A point must be a list or tuple of exactly two numbers.\<close>

definition valid_point :: "pyval \<Rightarrow> bool" where
  "valid_point p =
     (case p of
        PList cs \<Rightarrow> length cs = 2 \<and> list_all (\<lambda>c. is_number (Some c)) cs
      | PTuple cs \<Rightarrow> length cs = 2 \<and> list_all (\<lambda>c. is_number (Some c)) cs
      | _ \<Rightarrow> False)"

definition validate_points :: "nat \<Rightarrow> GeometryDict \<Rightarrow> error option" where
  "validate_points least g =
     (case g ''points'' of
        None \<Rightarrow> Some InvalidGeometryError
      | Some (PList points) \<Rightarrow>
          if length points < least then Some InvalidGeometryError
          else if \<not> list_all valid_point points then Some InvalidGeometryError
          else None
      | Some _ \<Rightarrow> Some InvalidGeometryError)"

definition validate_polyline_geometry :: "GeometryDict \<Rightarrow> error option" where
  "validate_polyline_geometry g = validate_points 2 g"

definition validate_polygon_geometry :: "GeometryDict \<Rightarrow> error option" where
  "validate_polygon_geometry g = validate_points 3 g"

definition valid_commands :: "char set" where
  "valid_commands = set ''MmLlHhVvCcSsQqTtAaZz''"

definition validate_path_geometry :: "GeometryDict \<Rightarrow> error option" where
  "validate_path_geometry g =
     (case g ''path_data'' of
        None \<Rightarrow> Some InvalidGeometryError
      | Some (PStr path_data) \<Rightarrow>
          if strip path_data = [] then Some InvalidGeometryError
          else if hd (strip path_data) \<notin> valid_commands then Some InvalidGeometryError
          else None
      | Some _ \<Rightarrow> Some InvalidGeometryError)"

definition validate_group_geometry :: "GeometryDict \<Rightarrow> error option" where
  "validate_group_geometry g =
     (case g ''children'' of
        None \<Rightarrow> Some InvalidGeometryError
      | Some (PList children) \<Rightarrow>
          if list_all (\<lambda>child. case child of PStr _ \<Rightarrow> True | _ \<Rightarrow> False) children then None
          else Some InvalidGeometryError
      | Some _ \<Rightarrow> Some InvalidGeometryError)"

text \<open>
  The model validator of \<open>Shape\<close>: it fills in the default style and transform and
  dispatches on the type. \<open>ShapeType\<close> is a closed enumeration, so the final
  \<open>else: raise InvalidGeometryError\<close> of the source has no case here.
\<close>

definition validate_by_type :: "ShapeType \<Rightarrow> GeometryDict \<Rightarrow> error option" where
  "validate_by_type t g =
     (case t of
        RECTANGLE \<Rightarrow> validate_rectangle_geometry g
      | CIRCLE \<Rightarrow> validate_circle_geometry g
      | ELLIPSE \<Rightarrow> validate_ellipse_geometry g
      | LINE \<Rightarrow> validate_line_geometry g
      | POLYLINE \<Rightarrow> validate_polyline_geometry g
      | POLYGON \<Rightarrow> validate_polygon_geometry g
      | PATH \<Rightarrow> validate_path_geometry g
      | GROUP \<Rightarrow> validate_group_geometry g)"

definition validate_geometry :: "Shape \<Rightarrow> error + Shape" where
  "validate_geometry s0 =
     (let s1 = (if style s0 = None then s0\<lparr>style := Some default_StyleProperties\<rparr> else s0);
          s = (if transform s1 = None then s1\<lparr>transform := Some default_Transform\<rparr> else s1)
      in case validate_by_type (shape_type s) (geometry s) of Some e \<Rightarrow> Inl e | None \<Rightarrow> Inr s)"

text \<open>Construction runs the model validator; the identifier is the one \<open>generate_id()\<close>
  returned or the caller supplied.\<close>

definition Shape_new ::
  "ID \<Rightarrow> ShapeType \<Rightarrow> GeometryDict \<Rightarrow> StyleProperties option \<Rightarrow> Transform option \<Rightarrow>
   bool \<Rightarrow> bool \<Rightarrow> string option \<Rightarrow> error + Shape" where
  "Shape_new i t g st tr vis lck nm =
     validate_geometry
       \<lparr>shape_id = i, shape_type = t, geometry = g, style = st, transform = tr,
        shape_visible = vis, shape_locked = lck, shape_name = nm\<rparr>"

text \<open>
  Attribute assignment \<open>shape.geometry = g\<close> and \<open>shape.type = t\<close>. As for every model of
  the library, \<open>validate_assignment\<close> is not set, so pydantic stores the value without
  running \<open>validate_geometry\<close>: the assignment cannot raise.
\<close>

definition Shape_set_geometry :: "Shape \<Rightarrow> GeometryDict \<Rightarrow> error + Shape" where
  "Shape_set_geometry s g = Inr (s\<lparr>geometry := g\<rparr>)"

definition Shape_set_type :: "Shape \<Rightarrow> ShapeType \<Rightarrow> error + Shape" where
  "Shape_set_type s t = Inr (s\<lparr>shape_type := t\<rparr>)"

subsection \<open>Bounding boxes\<close>
















type_synonym bounds = "real \<times> real \<times> real \<times> real"




section \<open>Layers (layers.py)\<close>

subsection \<open>Python lists\<close>

text \<open>
  \<open>xs.index(v)\<close> and \<open>xs.remove(v)\<close> look for the first element that matches;
  \<open>find_index\<close> returns its position, \<open>None\<close> standing for the \<open>ValueError\<close> of the source.
  \<open>xs.pop(i)\<close> removes position \<open>i\<close>; \<open>xs.insert(i, v)\<close> accepts any integer: a
  negative index counts from the end, and the result is cut to the range \<open>0..len(xs)\<close>.
\<close>

fun find_index :: "('a \<Rightarrow> bool) \<Rightarrow> 'a list \<Rightarrow> nat option" where
  "find_index P [] = None"
| "find_index P (e # es) =
     (if P e then Some 0 else (case find_index P es of None \<Rightarrow> None | Some i \<Rightarrow> Some (Suc i)))"

definition list_pop :: "nat \<Rightarrow> 'a list \<Rightarrow> 'a list" where
  "list_pop i xs = take i xs @ drop (Suc i) xs"


subsection \<open>Layer\<close>

text \<open>
  An entry of \<open>Layer.shapes\<close> is a shape ID or a \<open>Shape\<close> (\<open>Union[ID, Shape]\<close>). Shapes are
  held by value: \<open>in\<close>, \<open>index\<close> and \<open>remove\<close> compare an entry with the argument by
  identity or by \<open>==\<close>, and \<open>==\<close> on pydantic models compares the fields, so an entry
  matches the argument exactly when the two values are equal. A string never equals a
  \<open>Shape\<close>.
\<close>

datatype shape_ref = ShapeID ID | ShapeObj Shape

record Layer =
  layer_id :: ID
  layer_name :: string
  shapes :: "shape_ref list"
  layer_z_index :: int
  layer_visible :: bool
  layer_locked :: bool
  layer_opacity :: real
  layer_blend_mode :: BlendMode
  layer_parent_id :: "ID option"
  layer_metadata :: "(string \<times> pyval) list"

text \<open>\<open>Layer(name=name)\<close> with the identifier \<open>generate_id()\<close> returned.\<close>

definition Layer_new :: "ID \<Rightarrow> string \<Rightarrow> Layer" where
  "Layer_new i nm =
     \<lparr>layer_id = i, layer_name = nm, shapes = [], layer_z_index = 0, layer_visible = True,
      layer_locked = False, layer_opacity = 1, layer_blend_mode = NORMAL,
      layer_parent_id = None, layer_metadata = []\<rparr>"


definition remove_shape :: "Layer \<Rightarrow> shape_ref \<Rightarrow> Layer \<times> bool" where
  "remove_shape l shape =
     (case find_index (\<lambda>e. e = shape) (shapes l) of
        None \<Rightarrow> (l, False)
      | Some i \<Rightarrow> (l\<lparr>shapes := list_pop i (shapes l)\<rparr>, True))"


subsection \<open>LayerGroup: objects in a store\<close>

text \<open>
  Layers and groups are mutable objects that several lists can hold at once, so they live
  in a store: \<open>layers h r\<close> and \<open>groups h r\<close> are the objects at address \<open>r\<close>, and a
  children list holds references. Every address holds an object; creating one means
  writing it at an address not in use.
\<close>

type_synonym ref = nat

datatype node_ref = LayerRef ref | GroupRef ref

record LayerGroup =
  group_id :: ID
  group_name :: string
  children :: "node_ref list"
  group_z_index :: int
  group_visible :: bool
  group_locked :: bool
  expanded :: bool
  group_opacity :: real
  group_blend_mode :: BlendMode
  group_parent_id :: "ID option"
  group_metadata :: "(string \<times> pyval) list"

record heap =
  layers :: "ref \<Rightarrow> Layer"
  groups :: "ref \<Rightarrow> LayerGroup"

definition LayerGroup_new :: "ID \<Rightarrow> string \<Rightarrow> LayerGroup" where
  "LayerGroup_new i nm =
     \<lparr>group_id = i, group_name = nm, children = [], group_z_index = 0, group_visible = True,
      group_locked = False, expanded = True, group_opacity = 1, group_blend_mode = NORMAL,
      group_parent_id = None, group_metadata = []\<rparr>"

text \<open>\<open>child.id\<close>, \<open>child.parent_id\<close> and the assignment \<open>child.parent_id = p\<close>.\<close>

definition node_id :: "heap \<Rightarrow> node_ref \<Rightarrow> ID" where
  "node_id h c = (case c of LayerRef r \<Rightarrow> layer_id (layers h r) | GroupRef r \<Rightarrow> group_id (groups h r))"

definition node_parent_id :: "heap \<Rightarrow> node_ref \<Rightarrow> ID option" where
  "node_parent_id h c =
     (case c of LayerRef r \<Rightarrow> layer_parent_id (layers h r) | GroupRef r \<Rightarrow> group_parent_id (groups h r))"

definition set_parent_id :: "heap \<Rightarrow> node_ref \<Rightarrow> ID option \<Rightarrow> heap" where
  "set_parent_id h c p =
     (case c of
        LayerRef r \<Rightarrow> h\<lparr>layers := (layers h)(r := (layers h r)\<lparr>layer_parent_id := p\<rparr>)\<rparr>
      | GroupRef r \<Rightarrow> h\<lparr>groups := (groups h)(r := (groups h r)\<lparr>group_parent_id := p\<rparr>)\<rparr>)"

definition set_children :: "heap \<Rightarrow> ref \<Rightarrow> node_ref list \<Rightarrow> heap" where
  "set_children h g cs = h\<lparr>groups := (groups h)(g := (groups h g)\<lparr>children := cs\<rparr>)\<rparr>"

definition add_child :: "heap \<Rightarrow> ref \<Rightarrow> node_ref \<Rightarrow> heap" where
  "add_child h g child =
     (let h1 = set_parent_id h child (Some (group_id (groups h g)))
      in set_children h1 g (children (groups h1 g) @ [child]))"

text \<open>
  The argument of \<open>remove_child\<close> and \<open>move_child\<close> is an ID string or an object
  (\<open>isinstance(child, str)\<close> tells them apart). With an object, \<open>list.remove\<close> and
  \<open>list.index\<close> match an element \<open>e\<close> when \<open>e is child or e == child\<close>. The \<open>==\<close> of
  two distinct objects is pydantic's \<open>BaseModel.__eq__\<close>, which is not part of this
  library: it is the parameter \<open>eq\<close>.
\<close>

datatype child_arg = ByID ID | ByObj node_ref

definition child_matches ::
  "(heap \<Rightarrow> node_ref \<Rightarrow> node_ref \<Rightarrow> bool) \<Rightarrow> heap \<Rightarrow> child_arg \<Rightarrow> node_ref \<Rightarrow> bool" where
  "child_matches eq h arg e =
     (case arg of ByID cid \<Rightarrow> node_id h e = cid | ByObj child \<Rightarrow> e = child \<or> eq h e child)"

text \<open>
  \<open>remove_child\<close> clears the parent of the element it popped when called with an ID,
  and the parent of its argument when called with an object.
\<close>

definition remove_child ::
  "(heap \<Rightarrow> node_ref \<Rightarrow> node_ref \<Rightarrow> bool) \<Rightarrow> heap \<Rightarrow> ref \<Rightarrow> child_arg \<Rightarrow> heap \<times> bool" where
  "remove_child eq h g arg =
     (case find_index (child_matches eq h arg) (children (groups h g)) of
        None \<Rightarrow> (h, False)
      | Some i \<Rightarrow>
          (let removed_child = children (groups h g) ! i;
               h1 = set_children h g (list_pop i (children (groups h g)));
               cleared = (case arg of ByID cid \<Rightarrow> removed_child | ByObj child \<Rightarrow> child)
           in (set_parent_id h1 cleared None, True)))"


subsection \<open>Searching the tree\<close>

text \<open>
  The searches recurse into nested groups. The first argument bounds the depth of the
  recursion, as the interpreter's recursion limit does: a tree nested deeper (or a group
  that contains itself) ends in \<open>RecursionError\<close>. Each function walks the children
  list of one group; the result is the address of the object found.
\<close>

fun find_layer_in :: "nat \<Rightarrow> heap \<Rightarrow> node_ref list \<Rightarrow> ID \<Rightarrow> bool \<Rightarrow> error + ref option" where
  "find_layer_in n h [] lid recursive = Inr None"
| "find_layer_in n h (LayerRef r # cs) lid recursive =
     (if layer_id (layers h r) = lid then Inr (Some r) else find_layer_in n h cs lid recursive)"
| "find_layer_in 0 h (GroupRef r # cs) lid recursive =
     (if recursive then Inl RecursionError else find_layer_in 0 h cs lid recursive)"
| "find_layer_in (Suc n) h (GroupRef r # cs) lid recursive =
     (if recursive
      then (case find_layer_in n h (children (groups h r)) lid True of
              Inl e \<Rightarrow> Inl e
            | Inr (Some found) \<Rightarrow> Inr (Some found)
            | Inr None \<Rightarrow> find_layer_in (Suc n) h cs lid recursive)
      else find_layer_in (Suc n) h cs lid recursive)"

definition LayerGroup_find_layer_by_id :: "nat \<Rightarrow> heap \<Rightarrow> ref \<Rightarrow> ID \<Rightarrow> bool \<Rightarrow> error + ref option" where
  "LayerGroup_find_layer_by_id n h g lid recursive =
     find_layer_in n h (children (groups h g)) lid recursive"

fun find_group_in :: "nat \<Rightarrow> heap \<Rightarrow> node_ref list \<Rightarrow> ID \<Rightarrow> bool \<Rightarrow> error + ref option" where
  "find_group_in n h [] gid recursive = Inr None"
| "find_group_in n h (LayerRef r # cs) gid recursive = find_group_in n h cs gid recursive"
| "find_group_in 0 h (GroupRef r # cs) gid recursive =
     (if group_id (groups h r) = gid then Inr (Some r)
      else if recursive then Inl RecursionError
      else find_group_in 0 h cs gid recursive)"
| "find_group_in (Suc n) h (GroupRef r # cs) gid recursive =
     (if group_id (groups h r) = gid then Inr (Some r)
      else if recursive
      then (case (if group_id (groups h r) = gid then Inr (Some r)
                  else find_group_in n h (children (groups h r)) gid True) of
              Inl e \<Rightarrow> Inl e
            | Inr (Some found) \<Rightarrow> Inr (Some found)
            | Inr None \<Rightarrow> find_group_in (Suc n) h cs gid recursive)
      else find_group_in (Suc n) h cs gid recursive)"

definition LayerGroup_find_group_by_id :: "nat \<Rightarrow> heap \<Rightarrow> ref \<Rightarrow> ID \<Rightarrow> bool \<Rightarrow> error + ref option" where
  "LayerGroup_find_group_by_id n h g gid recursive =
     (if group_id (groups h g) = gid then Inr (Some g)
      else find_group_in n h (children (groups h g)) gid recursive)"

text \<open>\<open>search_group\<close> of \<open>_find_parent_group\<close>: \<open>g\<close> is the group whose children are walked.\<close>

fun search_group_in :: "nat \<Rightarrow> heap \<Rightarrow> ref \<Rightarrow> node_ref list \<Rightarrow> ID \<Rightarrow> error + ref option" where
  "search_group_in n h g [] child_id = Inr None"
| "search_group_in n h g (LayerRef r # cs) child_id =
     (if layer_id (layers h r) = child_id then Inr (Some g) else search_group_in n h g cs child_id)"
| "search_group_in 0 h g (GroupRef r # cs) child_id =
     (if group_id (groups h r) = child_id then Inr (Some g) else Inl RecursionError)"
| "search_group_in (Suc n) h g (GroupRef r # cs) child_id =
     (if group_id (groups h r) = child_id then Inr (Some g)
      else (case search_group_in n h r (children (groups h r)) child_id of
              Inl e \<Rightarrow> Inl e
            | Inr (Some found) \<Rightarrow> Inr (Some found)
            | Inr None \<Rightarrow> search_group_in (Suc n) h g cs child_id))"

subsection \<open>LayerManager\<close>

record LayerManager =
  root_group :: ref
  active_layer_id :: "ID option"

definition find_layer_by_id :: "nat \<Rightarrow> heap \<Rightarrow> LayerManager \<Rightarrow> ID \<Rightarrow> error + ref option" where
  "find_layer_by_id n h m lid = LayerGroup_find_layer_by_id n h (root_group m) lid True"

definition find_group_by_id :: "nat \<Rightarrow> heap \<Rightarrow> LayerManager \<Rightarrow> ID \<Rightarrow> error + ref option" where
  "find_group_by_id n h m gid = LayerGroup_find_group_by_id n h (root_group m) gid True"

definition find_parent_group :: "nat \<Rightarrow> heap \<Rightarrow> LayerManager \<Rightarrow> ID \<Rightarrow> error + ref option" where
  "find_parent_group n h m child_id =
     search_group_in n h (root_group m) (children (groups h (root_group m))) child_id"

text \<open>
  \<open>LayerManager()\<close>: a root group named Root at address \<open>root_ref\<close>, no active layer.
  \<open>create_layer\<close> and \<open>create_group\<close> take the address and the identifier of the new
  object; \<open>parent_group\<close> is a reference to any group, \<open>None\<close> for the root.
\<close>

definition LayerManager_new :: "heap \<Rightarrow> ref \<Rightarrow> ID \<Rightarrow> heap \<times> LayerManager" where
  "LayerManager_new h root_ref root_id =
     (h\<lparr>groups := (groups h)(root_ref := LayerGroup_new root_id ''Root'')\<rparr>,
      \<lparr>root_group = root_ref, active_layer_id = None\<rparr>)"

definition create_layer ::
  "heap \<Rightarrow> LayerManager \<Rightarrow> ref \<Rightarrow> ID \<Rightarrow> string \<Rightarrow> ref option \<Rightarrow> heap \<times> LayerManager \<times> ref" where
  "create_layer h m new_ref new_id nm parent_group =
     (let h1 = h\<lparr>layers := (layers h)(new_ref := Layer_new new_id nm)\<rparr>;
          target_group = (case parent_group of None \<Rightarrow> root_group m | Some g \<Rightarrow> g);
          h2 = add_child h1 target_group (LayerRef new_ref);
          m' = (if active_layer_id m = None
                then m\<lparr>active_layer_id := Some (layer_id (layers h2 new_ref))\<rparr> else m)
      in (h2, m', new_ref))"

definition create_group ::
  "heap \<Rightarrow> LayerManager \<Rightarrow> ref \<Rightarrow> ID \<Rightarrow> string \<Rightarrow> ref option \<Rightarrow> heap \<times> LayerManager \<times> ref" where
  "create_group h m new_ref new_id nm parent_group =
     (let h1 = h\<lparr>groups := (groups h)(new_ref := LayerGroup_new new_id nm)\<rparr>;
          target_group = (case parent_group of None \<Rightarrow> root_group m | Some g \<Rightarrow> g);
          h2 = add_child h1 target_group (GroupRef new_ref)
      in (h2, m, new_ref))"

definition delete_layer ::
  "(heap \<Rightarrow> node_ref \<Rightarrow> node_ref \<Rightarrow> bool) \<Rightarrow> nat \<Rightarrow> heap \<Rightarrow> LayerManager \<Rightarrow> ID \<Rightarrow>
   error + heap \<times> LayerManager \<times> bool" where
  "delete_layer eq n h m lid =
     (case find_layer_by_id n h m lid of
        Inl e \<Rightarrow> Inl e
      | Inr None \<Rightarrow> Inr (h, m, False)
      | Inr (Some layer) \<Rightarrow>
          (case find_parent_group n h m lid of
             Inl e \<Rightarrow> Inl e
           | Inr None \<Rightarrow> Inr (h, m, False)
           | Inr (Some parent) \<Rightarrow>
               (let (h', success) = remove_child eq h parent (ByID lid);
                    m' = (if active_layer_id m = Some lid then m\<lparr>active_layer_id := None\<rparr> else m)
                in Inr (h', m', success))))"

definition delete_group ::
  "(heap \<Rightarrow> node_ref \<Rightarrow> node_ref \<Rightarrow> bool) \<Rightarrow> nat \<Rightarrow> heap \<Rightarrow> LayerManager \<Rightarrow> ID \<Rightarrow>
   error + heap \<times> LayerManager \<times> bool" where
  "delete_group eq n h m gid =
     (if gid = group_id (groups h (root_group m)) then Inr (h, m, False)
      else (case find_group_by_id n h m gid of
              Inl e \<Rightarrow> Inl e
            | Inr None \<Rightarrow> Inr (h, m, False)
            | Inr (Some grp) \<Rightarrow>
                (case find_parent_group n h m gid of
                   Inl e \<Rightarrow> Inl e
                 | Inr None \<Rightarrow> Inr (h, m, False)
                 | Inr (Some parent) \<Rightarrow>
                     (let (h', success) = remove_child eq h parent (ByID gid)
                      in Inr (h', m, success)))))"

definition set_active_layer ::
  "nat \<Rightarrow> heap \<Rightarrow> LayerManager \<Rightarrow> ID \<Rightarrow> error + LayerManager \<times> bool" where
  "set_active_layer n h m lid =
     (case find_layer_by_id n h m lid of
        Inl e \<Rightarrow> Inl e
      | Inr None \<Rightarrow> Inr (m, False)
      | Inr (Some layer) \<Rightarrow> Inr (m\<lparr>active_layer_id := Some lid\<rparr>, True))"

section \<open>Canvas size (document.py)\<close>

text \<open>
  \<open>Units\<close> is a string enumeration (\<open>class Units(str, Enum)\<close>): its members are strings
  and \<open>self.units == Units.PIXELS\<close> compares string values. The field is a string here,
  the five members are constants, and any other string is an unrecognised unit.
\<close>

definition PIXELS :: string where "PIXELS = ''px''"
definition MILLIMETERS :: string where "MILLIMETERS = ''mm''"
definition INCHES :: string where "INCHES = ''in''"
definition POINTS :: string where "POINTS = ''pt''"
definition CENTIMETERS :: string where "CENTIMETERS = ''cm''"

record CanvasSize =
  cs_width :: real
  cs_height :: real
  units :: string

definition to_pixels :: "CanvasSize \<Rightarrow> real \<Rightarrow> real \<times> real" where
  "to_pixels cs dpi =
     (if units cs = PIXELS then (cs_width cs, cs_height cs)
      else if units cs = INCHES then (cs_width cs * dpi, cs_height cs * dpi)
      else if units cs = MILLIMETERS
      then (let inches_width = cs_width cs / 25.4; inches_height = cs_height cs / 25.4
            in (inches_width * dpi, inches_height * dpi))
      else if units cs = CENTIMETERS
      then (let inches_width = cs_width cs / 2.54; inches_height = cs_height cs / 2.54
            in (inches_width * dpi, inches_height * dpi))
      else if units cs = POINTS
      then (let inches_width = cs_width cs / 72; inches_height = cs_height cs / 72
            in (inches_width * dpi, inches_height * dpi))
      else (cs_width cs, cs_height cs))"

section \<open>Notions the properties are stated with\<close>



text \<open>
  Consistency of the parent back-references with containment: no children list holds a
  node twice, no node is in the children lists of two groups, a contained node's
  \<open>parent_id\<close> is the id of the group that holds it, and a node that no group holds has
  \<open>parent_id = None\<close>.
\<close>

definition parent_consistent :: "heap \<Rightarrow> bool" where
  "parent_consistent h \<longleftrightarrow>
     (\<forall>g. distinct (children (groups h g))) \<and>
     (\<forall>g g' c. c \<in> set (children (groups h g)) \<and> c \<in> set (children (groups h g')) \<longrightarrow> g = g') \<and>
     (\<forall>g c. c \<in> set (children (groups h g)) \<longrightarrow> node_parent_id h c = Some (group_id (groups h g))) \<and>
     (\<forall>c. (\<forall>g. c \<notin> set (children (groups h g))) \<longrightarrow> node_parent_id h c = None)"

text \<open>Sequences of \<open>add_child\<close> and \<open>remove_child\<close> calls, run from left to right.\<close>

datatype tree_op = AddChild ref node_ref | RemoveChild ref child_arg

definition apply_op :: "(heap \<Rightarrow> node_ref \<Rightarrow> node_ref \<Rightarrow> bool) \<Rightarrow> heap \<Rightarrow> tree_op \<Rightarrow> heap" where
  "apply_op eq h op =
     (case op of AddChild g c \<Rightarrow> add_child h g c | RemoveChild g arg \<Rightarrow> fst (remove_child eq h g arg))"

fun run_ops :: "(heap \<Rightarrow> node_ref \<Rightarrow> node_ref \<Rightarrow> bool) \<Rightarrow> heap \<Rightarrow> tree_op list \<Rightarrow> heap" where
  "run_ops eq h [] = h"
| "run_ops eq h (op # ops) = run_ops eq (apply_op eq h op) ops"

text \<open>Every \<open>add_child\<close> of the sequence is given a node whose \<open>parent_id\<close> is \<open>None\<close> at
  that moment.\<close>

fun adds_detached :: "(heap \<Rightarrow> node_ref \<Rightarrow> node_ref \<Rightarrow> bool) \<Rightarrow> heap \<Rightarrow> tree_op list \<Rightarrow> bool" where
  "adds_detached eq h [] = True"
| "adds_detached eq h (op # ops) =
     ((case op of AddChild g c \<Rightarrow> node_parent_id h c = None | RemoveChild g arg \<Rightarrow> True) \<and>
      adds_detached eq (apply_op eq h op) ops)"

text \<open>An \<open>==\<close> under which two distinct objects are never equal, as is the case when all
  identifiers differ (\<open>generate_id\<close> draws a fresh UUID for each object).\<close>

definition no_eq :: "heap \<Rightarrow> node_ref \<Rightarrow> node_ref \<Rightarrow> bool" where
  "no_eq h a b = False"

section \<open>Example states\<close>


text \<open>Three detached layers \<open>a\<close>, \<open>b\<close>, \<open>c\<close> at addresses 10, 11, 12 and two empty groups
  \<open>g1\<close>, \<open>g2\<close> at addresses 20 and 21.\<close>

definition ex_heap :: heap where
  "ex_heap =
     \<lparr>layers = (\<lambda>r. Layer_new (if r = 10 then ''a'' else if r = 11 then ''b'' else if r = 12 then ''c'' else '''') ''L''),
      groups = (\<lambda>r. LayerGroup_new (if r = 20 then ''g1'' else if r = 21 then ''g2'' else '''') ''G'')\<rparr>"


definition red :: Color where
  "red = RGB \<lparr>rgb_r = 255, rgb_g = 0, rgb_b = 0\<rparr>"

definition stop_at :: "real \<Rightarrow> GradientStop" where
  "stop_at p = \<lparr>stop_position = p, stop_color = red\<rparr>"

definition solid_red :: FillProperties where
  "solid_red =
     \<lparr>fill_type = SOLID, fill_color = Some red, linear_gradient = None, radial_gradient = None,
      pattern = None, fill_opacity = 1\<rparr>"

definition rect_100_50 :: GeometryDict where
  "rect_100_50 = [''width'' \<mapsto> PFloat 100, ''height'' \<mapsto> PFloat 50]"

definition rect_bad :: GeometryDict where
  "rect_bad = [''width'' \<mapsto> PInt (- 1), ''height'' \<mapsto> PInt 50]"

definition ex_rectangle :: Shape where
  "ex_rectangle =
     \<lparr>shape_id = ''shape-1'', shape_type = RECTANGLE, geometry = rect_100_50,
      style = Some default_StyleProperties, transform = Some default_Transform,
      shape_visible = True, shape_locked = False, shape_name = None\<rparr>"
















definition ex_pattern :: PatternFill where
  "ex_pattern =
     \<lparr>pf_id = ''pattern-1'', image_data = ''data'', pf_width = 8, pf_height = 8,
      repeat_x = True, repeat_y = True\<rparr>"

text \<open>
  A manager built through its public operations: a fresh manager (root group at address
  30), then \<open>create_group("Group")\<close>, then \<open>create_layer("Layer", parent_group=group)\<close>.
\<close>

definition manager_0 :: "heap \<times> LayerManager" where
  "manager_0 = LayerManager_new ex_heap 30 ''root''"

definition manager_1 :: "heap \<times> LayerManager \<times> ref" where
  "manager_1 = (case manager_0 of (h, m) \<Rightarrow> create_group h m 31 ''grp'' ''Group'' None)"

definition manager_2 :: "heap \<times> LayerManager \<times> ref" where
  "manager_2 = (case manager_1 of (h, m, g) \<Rightarrow> create_layer h m 40 ''lay'' ''Layer'' (Some g))"

definition reparent_ops :: "tree_op list" where
  "reparent_ops =
     [AddChild 20 (LayerRef 10), AddChild 20 (LayerRef 11), RemoveChild 20 (ByID ''a''),
      AddChild 21 (LayerRef 10)]"

definition double_add_ops :: "tree_op list" where
  "double_add_ops = [AddChild 20 (LayerRef 10), AddChild 21 (LayerRef 10)]"

section \<open>Hex colour round trip\<close>

lemma hex_digit_table:
  "\<forall>c \<in> set ''0123456789ABCDEFabcdef''.
     hex_digit_val c < 16 \<and> hex_char (hex_digit_val c) = lower_char c \<and>
     is_hex_digit (upper_char c) \<and> hex_digit_val (upper_char c) = hex_digit_val c \<and>
     \<not> is_space c \<and> \<not> is_space (upper_char c) \<and> c \<noteq> CHR 0x0A \<and> upper_char c \<noteq> CHR 0x0A
     \<and> upper_char (lower_char c) = upper_char c \<and> is_hex_digit (lower_char c)
     \<and> (hex_digit_val c = 15) = (upper_char c = CHR ''F'')"
  by code_simp

lemma hex_digit_facts:
  assumes "is_hex_digit c"
  shows "hex_digit_val c < 16" and "hex_char (hex_digit_val c) = lower_char c"
    and "is_hex_digit (upper_char c)" and "hex_digit_val (upper_char c) = hex_digit_val c"
    and "\<not> is_space c" and "\<not> is_space (upper_char c)" and "c \<noteq> CHR 0x0A"
    and "upper_char (lower_char c) = upper_char c" and "is_hex_digit (lower_char c)"
    and "(hex_digit_val c = 15) = (upper_char c = CHR ''F'')"
  using assms hex_digit_table unfolding is_hex_digit_def by blast+

lemma int16_pair:
  assumes "is_hex_digit c1" "is_hex_digit c2"
  shows "int16 [upper_char c1, upper_char c2] = Inr (int (16 * hex_digit_val c1 + hex_digit_val c2))"
  using hex_digit_facts[OF assms(1)] hex_digit_facts[OF assms(2)]
  by (simp add: int16_def strip_def Let_def)

lemma format_02x_pair:
  assumes "a < 16" "b < 16"
  shows "format_02x (int (16 * a + b)) = [hex_char a, hex_char b]"
proof (cases "a = 0")
  case True
  then show ?thesis using assms
    by (simp add: format_02x_def hex_digits.simps[of b] hex_char_def)
next
  case False
  then have "\<not> 16 * a + b < 16" by simp
  moreover have "(16 * a + b) div 16 = a" "(16 * a + b) mod 16 = b" using assms by simp_all
  ultimately have "hex_digits (16 * a + b) = [hex_char a, hex_char b]"
    using assms by (simp add: hex_digits.simps[of "16 * a + b"] hex_digits.simps[of a])
  then show ?thesis
    by (simp add: format_02x_def del: of_nat_add of_nat_mult)
qed

lemma py_round_of_int: "py_round (of_int k) = k"
  by (simp add: py_round_def)

lemma py_round_byte: "py_round (of_int k / 255 * 255) = k"
proof -
  have "(of_int k / 255 * 255 :: real) = of_int k" by simp
  then show ?thesis using py_round_of_int[of k] by simp
qed

lemma roundtrip_pair:
  assumes "is_hex_digit c1" "is_hex_digit c2"
  shows "format_02x (int (16 * hex_digit_val c1 + hex_digit_val c2)) = [lower_char c1, lower_char c2]"
  using format_02x_pair[of "hex_digit_val c1" "hex_digit_val c2"] hex_digit_facts[OF assms(1)] hex_digit_facts[OF assms(2)]
  by simp

lemma pair_bound:
  assumes "is_hex_digit c1" "is_hex_digit c2"
  shows "int (16 * hex_digit_val c1 + hex_digit_val c2) \<le> 255"
  using hex_digit_facts(1)[OF assms(1)] hex_digit_facts(1)[OF assms(2)] by simp

lemma list6: "length v = 6 \<Longrightarrow> \<exists>a b c d e f. v = [a,b,c,d,e,f]"
  by (auto simp: numeral_eq_Suc length_Suc_conv)

lemma list8: "length v = 8 \<Longrightarrow> \<exists>a b c d e f g h. v = [a,b,c,d,e,f,g,h]"
  by (auto simp: numeral_eq_Suc length_Suc_conv)

lemma re_match_hex_all: "v \<noteq> [] \<Longrightarrow> list_all is_hex_digit v \<Longrightarrow> re_match_hex v"
proof -
  assume a: "v \<noteq> []" "list_all is_hex_digit v"
  then have "is_hex_digit (last v)" by (simp add: list_all_iff)
  then have "last v \<noteq> CHR 0x0A" by (rule hex_digit_facts(7))
  then show ?thesis using a by (simp add: re_match_hex_def)
qed

lemma validate_ok:
  assumes "valid_hex_input s"
  shows "validate_hex_color s = Inr (CHR ''#'' # upper (strip_hash s))"
proof -
  have "strip_hash s \<noteq> []" using assms by (auto simp: valid_hex_input_def)
  then have "re_match_hex (strip_hash s)" using assms re_match_hex_all by (simp add: valid_hex_input_def)
  then show ?thesis using assms by (auto simp: validate_hex_color_def valid_hex_input_def Let_def)
qed


lemma rgba_roundtrip6:
  assumes "list_all is_hex_digit [a,b,c,d,e,f]"
  shows "\<exists>col. HexColor_to_rgba \<lparr>hex_value = CHR ''#'' # upper [a,b,c,d,e,f]\<rparr> = Inr col \<and>
           rgba_a col = 1 \<and>
           RGBAColor_to_hex col = CHR ''#'' # lower [a,b,c,d,e,f] @ ''ff''"
proof -
  have h: "is_hex_digit a" "is_hex_digit b" "is_hex_digit c" "is_hex_digit d" "is_hex_digit e" "is_hex_digit f"
    using assms by simp_all
  let ?r = "int (16 * hex_digit_val a + hex_digit_val b)"
  let ?g = "int (16 * hex_digit_val c + hex_digit_val d)"
  let ?b = "int (16 * hex_digit_val e + hex_digit_val f)"
  let ?col = "\<lparr>rgba_r = ?r, rgba_g = ?g, rgba_b = ?b, rgba_a = 1\<rparr>"
  have new: "RGBAColor_new ?r ?g ?b 1 = Inr ?col"
    using pair_bound[OF h(1,2)] pair_bound[OF h(3,4)] pair_bound[OF h(5,6)]
    by (simp add: RGBAColor_new_def del: of_nat_add of_nat_mult)
  have conv: "HexColor_to_rgba \<lparr>hex_value = CHR ''#'' # upper [a,b,c,d,e,f]\<rparr> = Inr ?col"
    using new by (simp add: HexColor_to_rgba_def upper_def int16_pair h del: of_nat_add of_nat_mult)
  have ff: "format_02x (py_round (1 * 255)) = ''ff''"
    using py_round_of_int[of 255] format_02x_pair[of 15 15] by (simp add: hex_char_def)
  have "RGBAColor_to_hex ?col = CHR ''#'' # lower [a,b,c,d,e,f] @ ''ff''"
    using ff by (simp add: RGBAColor_to_hex_def lower_def roundtrip_pair h del: of_nat_add of_nat_mult)
  with conv show ?thesis by (intro exI[of _ ?col]) simp
qed

lemma rgba_roundtrip8:
  assumes "list_all is_hex_digit [a,b,c,d,e,f,g,h]"
  shows "\<exists>col. HexColor_to_rgba \<lparr>hex_value = CHR ''#'' # upper [a,b,c,d,e,f,g,h]\<rparr> = Inr col \<and>
           rgba_a col = real (16 * hex_digit_val g + hex_digit_val h) / 255 \<and>
           RGBAColor_to_hex col = CHR ''#'' # lower [a,b,c,d,e,f,g,h]"
proof -
  have h: "is_hex_digit a" "is_hex_digit b" "is_hex_digit c" "is_hex_digit d" "is_hex_digit e" "is_hex_digit f"
       "is_hex_digit g" "is_hex_digit h"
    using assms by simp_all
  define r where "r = int (16 * hex_digit_val a + hex_digit_val b)"
  define gr where "gr = int (16 * hex_digit_val c + hex_digit_val d)"
  define bl where "bl = int (16 * hex_digit_val e + hex_digit_val f)"
  define k where "k = int (16 * hex_digit_val g + hex_digit_val h)"
  let ?col = "\<lparr>rgba_r = r, rgba_g = gr, rgba_b = bl, rgba_a = of_int k / 255\<rparr>"
  have bounds: "0 \<le> r" "r \<le> 255" "0 \<le> gr" "gr \<le> 255" "0 \<le> bl" "bl \<le> 255" "0 \<le> k" "k \<le> 255"
    using pair_bound[OF h(1,2)] pair_bound[OF h(3,4)] pair_bound[OF h(5,6)] pair_bound[OF h(7,8)]
    unfolding r_def gr_def bl_def k_def by simp_all
  have new: "RGBAColor_new r gr bl (of_int k / 255) = Inr ?col"
    using bounds by (simp add: RGBAColor_new_def)
  have i: "int16 [upper_char a, upper_char b] = Inr r" "int16 [upper_char c, upper_char d] = Inr gr"
      "int16 [upper_char e, upper_char f] = Inr bl" "int16 [upper_char g, upper_char h] = Inr k"
    unfolding r_def gr_def bl_def k_def by (rule int16_pair; fact)+
  have conv: "HexColor_to_rgba \<lparr>hex_value = CHR ''#'' # upper [a,b,c,d,e,f,g,h]\<rparr> = Inr ?col"
    using new by (simp add: HexColor_to_rgba_def upper_def i)
  have f: "format_02x r = [lower_char a, lower_char b]" "format_02x gr = [lower_char c, lower_char d]"
      "format_02x bl = [lower_char e, lower_char f]" "format_02x k = [lower_char g, lower_char h]"
    unfolding r_def gr_def bl_def k_def by (rule roundtrip_pair; fact)+
  have "RGBAColor_to_hex ?col = CHR ''#'' # lower [a,b,c,d,e,f,g,h]"
    by (simp add: RGBAColor_to_hex_def lower_def f py_round_of_int)
  moreover have "rgba_a ?col = real (16 * hex_digit_val g + hex_digit_val h) / 255"
    by (simp add: k_def)
  ultimately show ?thesis using conv by (intro exI[of _ ?col]) simp
qed


lemma upper_lower: "list_all is_hex_digit v \<Longrightarrow> upper (lower v) = upper v \<and> list_all is_hex_digit (lower v)"
  by (induction v) (simp_all add: upper_def lower_def hex_digit_facts)

lemma rgba_roundtrip:
  assumes "valid_hex_input s"
  shows "\<exists>h col. HexColor_new s = Inr h \<and> hex_value h = CHR ''#'' # upper (strip_hash s) \<and>
           HexColor_to_rgba h = Inr col \<and>
           RGBAColor_to_hex col =
             CHR ''#'' # lower (strip_hash s) @ (if length (strip_hash s) = 6 then ''ff'' else []) \<and>
           rgba_a col =
             (if length (strip_hash s) = 6 then 1
              else real (16 * hex_digit_val (strip_hash s ! 6) + hex_digit_val (strip_hash s ! 7)) / 255) \<and>
           validate_hex_color (RGBAColor_to_hex col) =
             Inr (CHR ''#'' # upper (strip_hash s) @ (if length (strip_hash s) = 6 then ''FF'' else []))"
proof -
  define v where "v = strip_hash s"
  have hx: "list_all is_hex_digit v" and len: "length v = 6 \<or> length v = 8"
    using assms by (simp_all add: valid_hex_input_def v_def)
  have new: "HexColor_new s = Inr \<lparr>hex_value = CHR ''#'' # upper v\<rparr>"
    using validate_ok[OF assms] by (simp add: HexColor_new_def v_def)
  from len show ?thesis
  proof
    assume l6: "length v = 6"
    then obtain a b c d e f where v: "v = [a,b,c,d,e,f]" using list6 by blast
    obtain col where col: "HexColor_to_rgba \<lparr>hex_value = CHR ''#'' # upper v\<rparr> = Inr col"
        "rgba_a col = 1" "RGBAColor_to_hex col = CHR ''#'' # lower v @ ''ff''"
      using rgba_roundtrip6[of a b c d e f] hx unfolding v by blast
    have hx2: "list_all is_hex_digit (lower v @ ''ff'')"
      using upper_lower[OF hx] by (simp add: is_hex_digit_def)
    have "strip_hash (CHR ''#'' # lower v @ ''ff'') = lower v @ ''ff''" by (simp add: strip_hash_def)
    moreover have "length (lower v @ ''ff'') = 8" using l6 by (simp add: lower_def)
    ultimately have "valid_hex_input (CHR ''#'' # lower v @ ''ff'')"
      using hx2 by (simp add: valid_hex_input_def)
    from validate_ok[OF this]
    have "validate_hex_color (RGBAColor_to_hex col) = Inr (CHR ''#'' # upper v @ ''FF'')"
      using upper_lower[OF hx] col(3) by (simp add: strip_hash_def upper_def upper_char_def)
    then show ?thesis using new col l6 unfolding v_def[symmetric]
      by (intro exI[of _ "\<lparr>hex_value = CHR ''#'' # upper v\<rparr>"] exI[of _ col]) simp
  next
    assume l8: "length v = 8"
    then obtain a b c d e f g h where v: "v = [a,b,c,d,e,f,g,h]" using list8 by blast
    obtain col where col: "HexColor_to_rgba \<lparr>hex_value = CHR ''#'' # upper v\<rparr> = Inr col"
        "rgba_a col = real (16 * hex_digit_val g + hex_digit_val h) / 255"
        "RGBAColor_to_hex col = CHR ''#'' # lower v"
      using rgba_roundtrip8[of a b c d e f g h] hx unfolding v by blast
    have "strip_hash (CHR ''#'' # lower v) = lower v" by (simp add: strip_hash_def)
    moreover have "length (lower v) = 8" using l8 by (simp add: lower_def)
    ultimately have "valid_hex_input (CHR ''#'' # lower v)"
      using upper_lower[OF hx] by (simp add: valid_hex_input_def)
    from validate_ok[OF this]
    have "validate_hex_color (RGBAColor_to_hex col) = Inr (CHR ''#'' # upper v)"
      using upper_lower[OF hx] col(3) by (simp add: strip_hash_def)
    moreover have "v ! 6 = g" "v ! 7 = h" by (simp_all add: v)
    ultimately show ?thesis using new col l8 unfolding v_def[symmetric]
      by (intro exI[of _ "\<lparr>hex_value = CHR ''#'' # upper v\<rparr>"] exI[of _ col]) simp
  qed
qed

lemma rgb_roundtrip:
  assumes "list_all is_hex_digit ([a,b,c,d,e,f] @ rest)"
  shows "HexColor_to_rgb \<lparr>hex_value = CHR ''#'' # upper ([a,b,c,d,e,f] @ rest)\<rparr> =
           Inr \<lparr>rgb_r = int (16 * hex_digit_val a + hex_digit_val b),
                rgb_g = int (16 * hex_digit_val c + hex_digit_val d),
                rgb_b = int (16 * hex_digit_val e + hex_digit_val f)\<rparr>"
    and "RGBColor_to_hex \<lparr>rgb_r = int (16 * hex_digit_val a + hex_digit_val b),
                rgb_g = int (16 * hex_digit_val c + hex_digit_val d),
                rgb_b = int (16 * hex_digit_val e + hex_digit_val f)\<rparr> = CHR ''#'' # lower [a,b,c,d,e,f]"
proof -
  have h: "is_hex_digit a" "is_hex_digit b" "is_hex_digit c" "is_hex_digit d" "is_hex_digit e" "is_hex_digit f"
    using assms by simp_all
  define r where "r = int (16 * hex_digit_val a + hex_digit_val b)"
  define gr where "gr = int (16 * hex_digit_val c + hex_digit_val d)"
  define bl where "bl = int (16 * hex_digit_val e + hex_digit_val f)"
  have bounds: "0 \<le> r" "r \<le> 255" "0 \<le> gr" "gr \<le> 255" "0 \<le> bl" "bl \<le> 255"
    using pair_bound[OF h(1,2)] pair_bound[OF h(3,4)] pair_bound[OF h(5,6)]
    unfolding r_def gr_def bl_def by simp_all
  have i: "int16 [upper_char a, upper_char b] = Inr r" "int16 [upper_char c, upper_char d] = Inr gr"
      "int16 [upper_char e, upper_char f] = Inr bl"
    unfolding r_def gr_def bl_def by (rule int16_pair; fact)+
  have "HexColor_to_rgb \<lparr>hex_value = CHR ''#'' # upper ([a,b,c,d,e,f] @ rest)\<rparr> =
      Inr \<lparr>rgb_r = r, rgb_g = gr, rgb_b = bl\<rparr>"
    using bounds by (simp add: HexColor_to_rgb_def upper_def i RGBColor_new_def)
  then show "HexColor_to_rgb \<lparr>hex_value = CHR ''#'' # upper ([a,b,c,d,e,f] @ rest)\<rparr> =
           Inr \<lparr>rgb_r = int (16 * hex_digit_val a + hex_digit_val b),
                rgb_g = int (16 * hex_digit_val c + hex_digit_val d),
                rgb_b = int (16 * hex_digit_val e + hex_digit_val f)\<rparr>"
    unfolding r_def gr_def bl_def .
  have f: "format_02x r = [lower_char a, lower_char b]" "format_02x gr = [lower_char c, lower_char d]"
      "format_02x bl = [lower_char e, lower_char f]"
    unfolding r_def gr_def bl_def by (rule roundtrip_pair; fact)+
  have "RGBColor_to_hex \<lparr>rgb_r = r, rgb_g = gr, rgb_b = bl\<rparr> = CHR ''#'' # lower [a,b,c,d,e,f]"
    by (simp add: RGBColor_to_hex_def lower_def f)
  then show "RGBColor_to_hex \<lparr>rgb_r = int (16 * hex_digit_val a + hex_digit_val b),
                rgb_g = int (16 * hex_digit_val c + hex_digit_val d),
                rgb_b = int (16 * hex_digit_val e + hex_digit_val f)\<rparr> = CHR ''#'' # lower [a,b,c,d,e,f]"
    unfolding r_def gr_def bl_def .
qed

lemma rgb_drops_alpha:
  assumes "valid_hex_input s"
  shows "\<exists>rgb. HexColor_to_rgb \<lparr>hex_value = CHR ''#'' # upper (strip_hash s)\<rparr> = Inr rgb \<and>
           RGBColor_to_hex rgb = CHR ''#'' # lower (take 6 (strip_hash s))"
proof -
  define v where "v = strip_hash s"
  have hx: "list_all is_hex_digit v" and len: "length v = 6 \<or> length v = 8"
    using assms by (simp_all add: valid_hex_input_def v_def)
  from len obtain a b c d e f rest where v: "v = [a,b,c,d,e,f] @ rest"
    using list6[of v] list8[of v] by auto
  have t: "take 6 v = [a,b,c,d,e,f]" by (simp add: v)
  show ?thesis
    unfolding v_def[symmetric] t
    using rgb_roundtrip[of a b c d e f rest] hx unfolding v by blast
qed

lemma alpha_one_iff:
  assumes "is_hex_digit g" "is_hex_digit h"
  shows "(real (16 * hex_digit_val g + hex_digit_val h) / 255 = 1) = (upper [g, h] = ''FF'')"
proof -
  define x where "x = hex_digit_val g"
  define y where "y = hex_digit_val h"
  have b: "x < 16" "y < 16"
    unfolding x_def y_def
    using hex_digit_facts(1)[OF assms(1)] hex_digit_facts(1)[OF assms(2)] .
  have "(real (16 * x + y) / 255 = 1) = (real (16 * x + y) = 255)" by simp
  also have "\<dots> = (real (16 * x + y) = real 255)" by simp
  also have "\<dots> = (16 * x + y = 255)" by (rule of_nat_eq_iff)
  also have "\<dots> = (x = 15 \<and> y = 15)" using b by presburger
  also have "\<dots> = (upper [g, h] = ''FF'')"
    unfolding x_def y_def
    using hex_digit_facts(10)[OF assms(1)] hex_digit_facts(10)[OF assms(2)] by (simp add: upper_def)
  finally show ?thesis unfolding x_def y_def .
qed

text \<open>
  Claim C1, as the code has it. For every hex colour string that, after an optional leading
  \<open>#\<close> is stripped, has length 6 or 8 and consists of hex digits only: parsing succeeds
  and stores \<open>#\<close> followed by the digits in upper case; converting to RGBA succeeds; and
  converting back with \<open>to_hex\<close> yields \<open>#\<close> followed by the digits in LOWER case, with
  \<open>ff\<close> appended when the source had 6 digits, so always 8 digits. Alpha is 1 when the
  source had 6 digits and the fourth byte over 255 when it had 8, so it is 1 exactly when
  the source had 6 digits or its alpha pair is \<open>FF\<close>; with 8 digits the alpha pair comes back
  as the last two digits. Parsing the result again gives the upper-case 8-digit form. The
  route through RGB (\<open>to_rgb\<close>, then \<open>to_hex\<close>) yields \<open>#\<close> and the first six digits in lower
  case: it gives back all digits of a 6-digit source and drops the alpha pair of an
  8-digit one.
\<close>

theorem hex_rgba_roundtrip:
  assumes "valid_hex_input s"
  shows "\<exists>h col rgb. HexColor_new s = Inr h \<and> hex_value h = CHR ''#'' # upper (strip_hash s) \<and>
           HexColor_to_rgba h = Inr col \<and>
           RGBAColor_to_hex col =
             CHR ''#'' # lower (strip_hash s) @ (if length (strip_hash s) = 6 then ''ff'' else []) \<and>
           rgba_a col =
             (if length (strip_hash s) = 6 then 1
              else real (16 * hex_digit_val (strip_hash s ! 6) + hex_digit_val (strip_hash s ! 7)) / 255) \<and>
           (rgba_a col = 1) = (length (strip_hash s) = 6 \<or> upper (drop 6 (strip_hash s)) = ''FF'') \<and>
           validate_hex_color (RGBAColor_to_hex col) =
             Inr (CHR ''#'' # upper (strip_hash s) @ (if length (strip_hash s) = 6 then ''FF'' else [])) \<and>
           HexColor_to_rgb h = Inr rgb \<and>
           RGBColor_to_hex rgb = CHR ''#'' # lower (take 6 (strip_hash s)) \<and>
           (RGBColor_to_hex rgb = CHR ''#'' # lower (strip_hash s)) = (length (strip_hash s) = 6)"
proof -
  define v where "v = strip_hash s"
  have hx: "list_all is_hex_digit v" and len: "length v = 6 \<or> length v = 8"
    using assms by (simp_all add: valid_hex_input_def v_def)
  from rgba_roundtrip[OF assms] obtain h col where hc:
      "HexColor_new s = Inr h" "hex_value h = CHR ''#'' # upper v"
      "HexColor_to_rgba h = Inr col"
      "RGBAColor_to_hex col = CHR ''#'' # lower v @ (if length v = 6 then ''ff'' else [])"
      "rgba_a col = (if length v = 6 then 1
              else real (16 * hex_digit_val (v ! 6) + hex_digit_val (v ! 7)) / 255)"
      "validate_hex_color (RGBAColor_to_hex col) =
             Inr (CHR ''#'' # upper v @ (if length v = 6 then ''FF'' else []))"
    unfolding v_def by blast
  have h: "h = \<lparr>hex_value = CHR ''#'' # upper v\<rparr>" using hc(2) by simp
  from rgb_drops_alpha[OF assms] obtain rgb where rgb:
      "HexColor_to_rgb h = Inr rgb" "RGBColor_to_hex rgb = CHR ''#'' # lower (take 6 v)"
    unfolding h v_def by blast
  have alpha: "(rgba_a col = 1) = (length v = 6 \<or> upper (drop 6 v) = ''FF'')"
  proof (cases "length v = 6")
    case True
    then show ?thesis using hc(5) by simp
  next
    case False
    with len have l8: "length v = 8" by simp
    then obtain a b c d e f g k where v: "v = [a,b,c,d,e,f,g,k]" using list8 by blast
    have gk: "is_hex_digit g" "is_hex_digit k" using hx by (simp_all add: v)
    have dk: "drop 6 v = [g, k]" "v ! 6 = g" "v ! 7 = k" by (simp_all add: v)
    from hc(5) False
    have "rgba_a col = real (16 * hex_digit_val (v ! 6) + hex_digit_val (v ! 7)) / 255"
      by (simp only: if_False)
    then have al: "rgba_a col = real (16 * hex_digit_val g + hex_digit_val k) / 255"
      unfolding dk(2,3) .
    show ?thesis unfolding al dk(1) alpha_one_iff[OF gk] using False by blast
  qed
  have same: "(RGBColor_to_hex rgb = CHR ''#'' # lower v) = (length v = 6)"
  proof -
    have "(lower (take 6 v) = lower v) = (length v = 6)"
    proof
      assume "lower (take 6 v) = lower v"
      then have "length (lower (take 6 v)) = length (lower v)" by simp
      then show "length v = 6" using len by (auto simp: lower_def)
    next
      assume "length v = 6"
      then show "lower (take 6 v) = lower v" by simp
    qed
    then show ?thesis unfolding rgb(2) by simp
  qed
  show ?thesis
    using hc rgb alpha same unfolding v_def[symmetric] by blast
qed

text \<open>The theorem at the 8-digit input \<open>#Ff804080\<close> (alpha byte 0x80 = 128).\<close>

theorem hex_rgba_roundtrip_witness:
  "valid_hex_input ''#Ff804080'' \<and>
   (\<exists>h col rgb. HexColor_new ''#Ff804080'' = Inr h \<and> hex_value h = ''#FF804080'' \<and>
      HexColor_to_rgba h = Inr col \<and> RGBAColor_to_hex col = ''#ff804080'' \<and>
      rgba_a col = 128 / 255 \<and> validate_hex_color (RGBAColor_to_hex col) = Inr ''#FF804080'' \<and>
      HexColor_to_rgb h = Inr rgb \<and> RGBColor_to_hex rgb = ''#ff8040'')"
proof -
  have v: "valid_hex_input ''#Ff804080''" by code_simp
  have s: "strip_hash ''#Ff804080'' = ''Ff804080''" by code_simp
  have u: "upper ''Ff804080'' = ''FF804080''" by code_simp
  have l: "lower ''Ff804080'' = ''ff804080''" "lower (take 6 ''Ff804080'') = ''ff8040''" by code_simp+
  have k: "real (16 * hex_digit_val (''Ff804080'' ! 6) + hex_digit_val (''Ff804080'' ! 7)) = 128" by code_simp
  show ?thesis using v hex_rgba_roundtrip[OF v] unfolding s u l k by simp blast
qed

text \<open>
  Claim C1 as stated fails: the valid 6-digit input \<open>FF8040\<close> parses, converts to
  RGBA (255, 128, 64, 1.0), and \<open>to_hex\<close> returns \<open>#ff8040ff\<close>, which is not an
  upper-case form.
\<close>

theorem hex_rgba_not_uppercase_counterexample:
  "valid_hex_input ''FF8040'' \<and>
   HexColor_new ''FF8040'' = Inr \<lparr>hex_value = ''#FF8040''\<rparr> \<and>
   HexColor_to_rgba \<lparr>hex_value = ''#FF8040''\<rparr> =
     Inr \<lparr>rgba_r = 255, rgba_g = 128, rgba_b = 64, rgba_a = 1\<rparr> \<and>
   RGBAColor_to_hex \<lparr>rgba_r = 255, rgba_g = 128, rgba_b = 64, rgba_a = 1\<rparr> = ''#ff8040ff'' \<and>
   \<not> canonical_hex ''#ff8040ff''"
  by code_simp

section \<open>Moving and adding within a layer or group\<close>

lemma find_index_Some:
  "find_index P xs = Some i \<Longrightarrow> i < length xs \<and> P (xs ! i) \<and> (\<forall>j<i. \<not> P (xs ! j))"
proof (induction xs arbitrary: i)
  case Nil
  then show ?case by simp
next
  case (Cons e es)
  show ?case
  proof (cases "P e")
    case True
    with Cons.prems show ?thesis by simp
  next
    case False
    with Cons.prems obtain i' where i': "find_index P es = Some i'" "i = Suc i'"
      by (auto split: option.splits)
    from Cons.IH[OF i'(1)] False i'(2) show ?thesis
      by (auto simp: less_Suc_eq_0_disj)
  qed
qed















section \<open>Canvas units\<close>

text \<open>
  Claim C9. For every canvas size and every dpi, \<open>to_pixels\<close> returns the size unchanged
  for pixels, times dpi for inches, \<open>(v / 25.4) * dpi\<close> for millimetres,
  \<open>(v / 2.54) * dpi\<close> for centimetres, \<open>(v / 72) * dpi\<close> for points, and the size
  unchanged for any unit that is none of the five.
\<close>

theorem to_pixels_units:
  "to_pixels \<lparr>cs_width = w, cs_height = ht, units = PIXELS\<rparr> dpi = (w, ht) \<and>
   to_pixels \<lparr>cs_width = w, cs_height = ht, units = INCHES\<rparr> dpi = (w * dpi, ht * dpi) \<and>
   to_pixels \<lparr>cs_width = w, cs_height = ht, units = MILLIMETERS\<rparr> dpi = ((w / 25.4) * dpi, (ht / 25.4) * dpi) \<and>
   to_pixels \<lparr>cs_width = w, cs_height = ht, units = CENTIMETERS\<rparr> dpi = ((w / 2.54) * dpi, (ht / 2.54) * dpi) \<and>
   to_pixels \<lparr>cs_width = w, cs_height = ht, units = POINTS\<rparr> dpi = ((w / 72) * dpi, (ht / 72) * dpi) \<and>
   (u \<notin> {PIXELS, INCHES, MILLIMETERS, CENTIMETERS, POINTS} \<longrightarrow>
      to_pixels \<lparr>cs_width = w, cs_height = ht, units = u\<rparr> dpi = (w, ht))"
  by (simp add: to_pixels_def PIXELS_def INCHES_def MILLIMETERS_def CENTIMETERS_def POINTS_def)

text \<open>The theorem at an unrecognised unit, and an A4 page in millimetres at 96 dpi, which
  is (793.7, 1122.5) within 0.1.\<close>

theorem to_pixels_units_witness:
  "''furlong'' \<notin> {PIXELS, INCHES, MILLIMETERS, CENTIMETERS, POINTS} \<and>
   to_pixels \<lparr>cs_width = 210, cs_height = 297, units = ''furlong''\<rparr> 96 = (210, 297) \<and>
   to_pixels \<lparr>cs_width = 210, cs_height = 297, units = MILLIMETERS\<rparr> 96 = (210 / 25.4 * 96, 297 / 25.4 * 96) \<and>
   \<bar>210 / 25.4 * 96 - 793.7\<bar> < (0.1 :: real) \<and> \<bar>297 / 25.4 * 96 - 1122.5\<bar> < (0.1 :: real)"
proof -
  have u: "''furlong'' \<notin> {PIXELS, INCHES, MILLIMETERS, CENTIMETERS, POINTS}"
    by (simp add: PIXELS_def INCHES_def MILLIMETERS_def CENTIMETERS_def POINTS_def)
  show ?thesis using u to_pixels_units[of 210 297 96 "''furlong''"] by simp
qed


section \<open>Gradient stops\<close>

lemma distinct_sort_key_map: "distinct (map f (sort_key f xs)) = distinct (map f xs)"
proof -
  have "mset (map f (sort_key f xs)) = mset (map f xs)" by simp
  then show ?thesis by (rule mset_eq_imp_distinct_iff)
qed

lemma validate_stops_eq:
  "validate_stops v =
     (if length v < 2 then Inl InvalidStyleError
      else if \<not> distinct (map stop_position v) then Inl InvalidStyleError
      else Inr (sort_key stop_position v))"
proof -
  let ?ps = "map stop_position (sort_key stop_position v)"
  have "(card (set ?ps) = length ?ps) = distinct ?ps"
    using card_distinct distinct_card by blast
  then have "(card (set ?ps) \<noteq> length ?ps) = (\<not> distinct (map stop_position v))"
    using distinct_sort_key_map[of stop_position v] by simp
  then show ?thesis unfolding validate_stops_def Let_def by simp
qed

lemma sorted_stops:
  assumes "distinct (map stop_position v)"
  shows "sorted_wrt (<) (map stop_position (sort_key stop_position v))"
  using assms distinct_sort_key_map[of stop_position v]
  by (simp add: strict_sorted_iff)

text \<open>
  Claim C5, as the code has it. For every list of stops given to the constructor of a
  linear or radial gradient: fewer than 2 stops fail with pydantic's \<open>ValidationError\<close>
  (the \<open>min_length=2\<close> bound of the field, checked before the validator runs); two equal
  positions among at least 2 stops fail with \<open>InvalidStyleError\<close>; otherwise the gradient
  is built and stores the same stops in strictly ascending order of position.
\<close>

theorem gradient_stops_sorted:
  "(length stops < 2 \<longrightarrow>
      LinearGradient_new i sx sy ex ey stops = Inl ValidationError \<and>
      RadialGradient_new i cx cy rad stops = Inl ValidationError) \<and>
   (2 \<le> length stops \<and> \<not> distinct (map stop_position stops) \<longrightarrow>
      LinearGradient_new i sx sy ex ey stops = Inl InvalidStyleError \<and>
      RadialGradient_new i cx cy rad stops = Inl InvalidStyleError) \<and>
   (2 \<le> length stops \<and> distinct (map stop_position stops) \<longrightarrow>
      (\<exists>ss. LinearGradient_new i sx sy ex ey stops =
               Inr \<lparr>lg_id = i, start_x = sx, start_y = sy, end_x = ex, end_y = ey, lg_stops = ss\<rparr> \<and>
            (0 \<le> rad \<longrightarrow> RadialGradient_new i cx cy rad stops =
               Inr \<lparr>rg_id = i, center_x = cx, center_y = cy, rg_radius = rad, rg_stops = ss\<rparr>) \<and>
            sorted_wrt (<) (map stop_position ss) \<and> mset ss = mset stops))"
proof (intro conjI impI)
  assume "2 \<le> length stops \<and> distinct (map stop_position stops)"
  then have a: "\<not> length stops < 2" "distinct (map stop_position stops)" by simp_all
  show "\<exists>ss. LinearGradient_new i sx sy ex ey stops =
               Inr \<lparr>lg_id = i, start_x = sx, start_y = sy, end_x = ex, end_y = ey, lg_stops = ss\<rparr> \<and>
            (0 \<le> rad \<longrightarrow> RadialGradient_new i cx cy rad stops =
               Inr \<lparr>rg_id = i, center_x = cx, center_y = cy, rg_radius = rad, rg_stops = ss\<rparr>) \<and>
            sorted_wrt (<) (map stop_position ss) \<and> mset ss = mset stops"
    using a sorted_stops[OF a(2)]
    by (intro exI[of _ "sort_key stop_position stops"])
       (simp add: LinearGradient_new_def RadialGradient_new_def validate_stops_eq)
qed (simp_all add: LinearGradient_new_def RadialGradient_new_def validate_stops_eq)

text \<open>The theorem at positions [0.3, 0.1, 0.7] (stored as [0.1, 0.3, 0.7]), at [0.2, 0.2]
  and at a single stop.\<close>

theorem gradient_stops_sorted_witness:
  "LinearGradient_new ''g'' 0 0 1 1 [stop_at 0.3, stop_at 0.1, stop_at 0.7] =
     Inr \<lparr>lg_id = ''g'', start_x = 0, start_y = 0, end_x = 1, end_y = 1,
          lg_stops = [stop_at 0.1, stop_at 0.3, stop_at 0.7]\<rparr> \<and>
   RadialGradient_new ''g'' 0.5 0.5 0.5 [stop_at 0.3, stop_at 0.1, stop_at 0.7] =
     Inr \<lparr>rg_id = ''g'', center_x = 0.5, center_y = 0.5, rg_radius = 0.5,
          rg_stops = [stop_at 0.1, stop_at 0.3, stop_at 0.7]\<rparr> \<and>
   LinearGradient_new ''g'' 0 0 1 1 [stop_at 0.2, stop_at 0.2] = Inl InvalidStyleError \<and>
   RadialGradient_new ''g'' 0.5 0.5 0.5 [stop_at 0.2, stop_at 0.2] = Inl InvalidStyleError \<and>
   LinearGradient_new ''g'' 0 0 1 1 [stop_at 0.2] = Inl ValidationError \<and>
   RadialGradient_new ''g'' 0.5 0.5 0.5 [stop_at 0.2] = Inl ValidationError"
proof -
  have s: "sort_key stop_position [stop_at 0.3, stop_at 0.1, stop_at 0.7] = [stop_at 0.1, stop_at 0.3, stop_at 0.7]"
    by (simp add: stop_at_def)
  have d: "distinct (map stop_position [stop_at 0.3, stop_at 0.1, stop_at 0.7])"
    "\<not> distinct (map stop_position [stop_at 0.2, stop_at 0.2])"
    by (simp_all add: stop_at_def)
  from gradient_stops_sorted[of "[stop_at 0.3, stop_at 0.1, stop_at 0.7]" "''g''" 0 0 1 1 "0.5" "0.5" "0.5"] d(1)
  obtain ss where ss: "LinearGradient_new ''g'' 0 0 1 1 [stop_at 0.3, stop_at 0.1, stop_at 0.7] =
      Inr \<lparr>lg_id = ''g'', start_x = 0, start_y = 0, end_x = 1, end_y = 1, lg_stops = ss\<rparr>"
     "RadialGradient_new ''g'' 0.5 0.5 0.5 [stop_at 0.3, stop_at 0.1, stop_at 0.7] =
      Inr \<lparr>rg_id = ''g'', center_x = 0.5, center_y = 0.5, rg_radius = 0.5, rg_stops = ss\<rparr>"
    by auto
  have v: "validate_stops [stop_at 0.3, stop_at 0.1, stop_at 0.7] = Inr [stop_at 0.1, stop_at 0.3, stop_at 0.7]"
    unfolding validate_stops_eq s using d(1) by simp
  have "LinearGradient_new ''g'' 0 0 1 1 [stop_at 0.3, stop_at 0.1, stop_at 0.7] =
      Inr \<lparr>lg_id = ''g'', start_x = 0, start_y = 0, end_x = 1, end_y = 1,
           lg_stops = [stop_at 0.1, stop_at 0.3, stop_at 0.7]\<rparr>"
    unfolding LinearGradient_new_def v by simp
  then have "ss = [stop_at 0.1, stop_at 0.3, stop_at 0.7]"
    unfolding ss(1) by simp
  then show ?thesis
    using ss d(2)
      gradient_stops_sorted[of "[stop_at 0.2, stop_at 0.2]" "''g''" 0 0 1 1 "0.5" "0.5" "0.5"]
      gradient_stops_sorted[of "[stop_at 0.2]" "''g''" 0 0 1 1 "0.5" "0.5" "0.5"]
    by simp
qed

text \<open>
  Claim C5 as stated fails: a gradient built from fewer than 2 stops does not fail with
  the style error but with pydantic's \<open>ValidationError\<close>.
\<close>

theorem gradient_too_short_counterexample:
  "LinearGradient_new ''g'' 0 0 1 1 [stop_at 0.2] = Inl ValidationError \<and>
   LinearGradient_new ''g'' 0 0 1 1 [stop_at 0.2] \<noteq> Inl InvalidStyleError \<and>
   RadialGradient_new ''g'' 0.5 0.5 0.5 [] \<noteq> Inl InvalidStyleError"
  by (simp add: LinearGradient_new_def RadialGradient_new_def)

section \<open>Fill consistency\<close>

text \<open>
  Claim C6, as the code has it. For every tag and payload fields with an opacity in
  [0, 1]: when the payload field of the tag is absent, construction fails with
  \<open>InvalidStyleError\<close>; otherwise the value built has exactly the field of the tag
  populated, with the payload supplied, and every other payload field \<open>None\<close>. A later
  assignment of the tag runs no validation: it stores the tag and changes nothing else.
\<close>

theorem fill_consistency:
  "(0 \<le> opac \<and> opac \<le> 1 \<and>
    \<not> payload_present t \<lparr>fill_type = t, fill_color = c, linear_gradient = lg, radial_gradient = rg,
                          pattern = p, fill_opacity = opac\<rparr> \<longrightarrow>
      FillProperties_new t c lg rg p opac = Inl InvalidStyleError) \<and>
   (0 \<le> opac \<and> opac \<le> 1 \<and>
    payload_present t \<lparr>fill_type = t, fill_color = c, linear_gradient = lg, radial_gradient = rg,
                        pattern = p, fill_opacity = opac\<rparr> \<longrightarrow>
      (\<exists>f. FillProperties_new t c lg rg p opac = Inr f \<and>
           f = \<lparr>fill_type = t,
                fill_color = (if t = SOLID then c else None),
                linear_gradient = (if t = LINEAR_GRADIENT then lg else None),
                radial_gradient = (if t = RADIAL_GRADIENT then rg else None),
                pattern = (if t = PATTERN then p else None),
                fill_opacity = opac\<rparr> \<and>
           exactly_populated f)) \<and>
   FillProperties_set_type f0 t0 = Inr (f0\<lparr>fill_type := t0\<rparr>)"
  by (cases t)
     (auto simp: FillProperties_new_def validate_fill_consistency_def payload_present_def
        exactly_populated_def FillProperties_set_type_def Let_def)

text \<open>The theorem at a solid fill with a stray pattern (cleared), at a gradient tag
  without gradient, and at a re-tagging.\<close>

theorem fill_consistency_witness:
  "FillProperties_new SOLID (Some red) None None (Some ex_pattern) (1 / 2) =
     Inr \<lparr>fill_type = SOLID, fill_color = Some red, linear_gradient = None, radial_gradient = None,
          pattern = None, fill_opacity = 1 / 2\<rparr> \<and>
   FillProperties_new LINEAR_GRADIENT (Some red) None None None 1 = Inl InvalidStyleError \<and>
   FillProperties_set_type solid_red PATTERN = Inr (solid_red\<lparr>fill_type := PATTERN\<rparr>)"
  using fill_consistency[of "1 / 2" SOLID "Some red" None None "Some ex_pattern" solid_red PATTERN]
    fill_consistency[of 1 LINEAR_GRADIENT "Some red" None None None solid_red PATTERN]
  by (simp add: payload_present_def)

text \<open>
  Claim C6 as stated fails for a later mutation of the tag: setting the type of a solid
  fill to \<open>PATTERN\<close>, with no pattern data, raises nothing and leaves a fill whose tag
  is \<open>PATTERN\<close>, whose colour is still set and whose pattern is \<open>None\<close>.
\<close>

theorem fill_retag_counterexample:
  "FillProperties_new SOLID (Some red) None None None 1 = Inr solid_red \<and>
   \<not> payload_present PATTERN solid_red \<and>
   FillProperties_set_type solid_red PATTERN = Inr (solid_red\<lparr>fill_type := PATTERN\<rparr>) \<and>
   fill_color (solid_red\<lparr>fill_type := PATTERN\<rparr>) = Some red \<and>
   pattern (solid_red\<lparr>fill_type := PATTERN\<rparr>) = None \<and>
   \<not> exactly_populated (solid_red\<lparr>fill_type := PATTERN\<rparr>)"
  by (simp add: FillProperties_new_def validate_fill_consistency_def payload_present_def
      exactly_populated_def FillProperties_set_type_def solid_red_def Let_def)

section \<open>Shape validation\<close>

lemma validate_geometry_Inr:
  assumes "validate_geometry s0 = Inr s"
  shows "geometry s = geometry s0" "shape_type s = shape_type s0" "transform s \<noteq> None"
    "style s \<noteq> None" "shape_id s = shape_id s0"
    "validate_by_type (shape_type s0) (geometry s0) = None"
  using assms unfolding validate_geometry_def Let_def
  by (auto split: option.splits if_splits)

lemma validator_errors:
  "validate_rectangle_geometry g = Some e \<Longrightarrow> e = InvalidGeometryError"
  "validate_circle_geometry g = Some e \<Longrightarrow> e = InvalidGeometryError"
  "validate_ellipse_geometry g = Some e \<Longrightarrow> e = InvalidGeometryError"
  "validate_line_geometry g = Some e \<Longrightarrow> e = InvalidGeometryError"
  "validate_points n g = Some e \<Longrightarrow> e = InvalidGeometryError"
  "validate_path_geometry g = Some e \<Longrightarrow> e = InvalidGeometryError"
  "validate_group_geometry g = Some e \<Longrightarrow> e = InvalidGeometryError"
  unfolding validate_rectangle_geometry_def validate_circle_geometry_def validate_ellipse_geometry_def
    validate_line_geometry_def validate_points_def validate_path_geometry_def validate_group_geometry_def
  by (simp_all split: option.splits if_splits pyval.splits)

lemma validate_by_type_error: "validate_by_type t g = Some e \<Longrightarrow> e = InvalidGeometryError"
  unfolding validate_by_type_def validate_polyline_geometry_def validate_polygon_geometry_def
  by (cases t) (simp_all add: validator_errors)

lemma validate_geometry_error: "validate_geometry s0 = Inl e \<Longrightarrow> e = InvalidGeometryError"
  unfolding validate_geometry_def Let_def
  by (auto split: option.splits if_splits dest: validate_by_type_error)

lemma validate_geometry_idem:
  assumes "validate_geometry s0 = Inr s"
  shows "validate_geometry s = Inr s"
  using validate_geometry_Inr[OF assms]
  unfolding validate_geometry_def Let_def by (auto split: option.splits)

text \<open>
  Claim C2, as the code has it. Validation runs on every construction: constructing a
  shape either fails with \<open>InvalidGeometryError\<close>, which it does exactly when the
  type-specific check rejects the geometry, or yields a shape with the given type and
  geometry that passes validation again. An in-place assignment to \<open>geometry\<close> or
  \<open>type\<close> is not validated: it stores the new value and raises nothing.
\<close>

theorem shape_validation:
  "(Shape_new i t g st tr v l n = Inl InvalidGeometryError \<or>
    (\<exists>s. Shape_new i t g st tr v l n = Inr s \<and> shape_type s = t \<and> geometry s = g \<and>
         shape_id s = i \<and> style s \<noteq> None \<and> transform s \<noteq> None \<and> validate_geometry s = Inr s)) \<and>
   (validate_by_type t g \<noteq> None \<longrightarrow> Shape_new i t g st tr v l n = Inl InvalidGeometryError) \<and>
   (validate_by_type t g = None \<longrightarrow> (\<exists>s. Shape_new i t g st tr v l n = Inr s)) \<and>
   Shape_set_geometry s' g' = Inr (s'\<lparr>geometry := g'\<rparr>) \<and>
   Shape_set_type s' t' = Inr (s'\<lparr>shape_type := t'\<rparr>)"
proof -
  let ?s0 = "\<lparr>shape_id = i, shape_type = t, geometry = g, style = st, transform = tr,
        shape_visible = v, shape_locked = l, shape_name = n\<rparr>"
  have new: "Shape_new i t g st tr v l n = validate_geometry ?s0" by (simp add: Shape_new_def)
  have a: "validate_geometry ?s0 = Inl InvalidGeometryError \<or>
    (\<exists>s. validate_geometry ?s0 = Inr s \<and> shape_type s = t \<and> geometry s = g \<and>
         shape_id s = i \<and> style s \<noteq> None \<and> transform s \<noteq> None \<and> validate_geometry s = Inr s)"
  proof (cases "validate_geometry ?s0")
    case (Inl e)
    then show ?thesis using validate_geometry_error[of ?s0 e] by simp
  next
    case (Inr s)
    then show ?thesis using validate_geometry_Inr[OF Inr] validate_geometry_idem[OF Inr] by simp
  qed
  have b: "validate_by_type t g \<noteq> None \<longrightarrow> validate_geometry ?s0 = Inl InvalidGeometryError"
    unfolding validate_geometry_def Let_def
    by (auto split: option.splits dest: validate_by_type_error)
  have c: "validate_by_type t g = None \<longrightarrow> (\<exists>s. validate_geometry ?s0 = Inr s)"
    unfolding validate_geometry_def Let_def by (auto split: option.splits)
  show ?thesis unfolding new using a b c
    by (simp add: Shape_set_geometry_def Shape_set_type_def)
qed

lemma rect_checks:
  "validate_by_type RECTANGLE rect_100_50 = None"
  "validate_by_type RECTANGLE rect_bad = Some InvalidGeometryError"
  by (simp_all add: validate_by_type_def validate_rectangle_geometry_def rect_100_50_def rect_bad_def
      positive_number_def number_of_def value_of_def)

text \<open>The theorem at a rectangle of width 100 and height 50 and at one of width -1.\<close>

theorem shape_validation_witness:
  "validate_by_type RECTANGLE rect_bad \<noteq> None \<and>
   validate_by_type RECTANGLE rect_100_50 = None \<and>
   Shape_new ''shape-1'' RECTANGLE rect_bad None None True False None = Inl InvalidGeometryError \<and>
   Shape_new ''shape-1'' RECTANGLE rect_100_50 None None True False None = Inr ex_rectangle \<and>
   validate_geometry ex_rectangle = Inr ex_rectangle"
proof -
  have new: "Shape_new ''shape-1'' RECTANGLE rect_100_50 None None True False None = Inr ex_rectangle"
    using rect_checks(1) by (simp add: Shape_new_def validate_geometry_def ex_rectangle_def)
  have "validate_geometry ex_rectangle = Inr ex_rectangle"
    using shape_validation[of "''shape-1''" RECTANGLE rect_100_50 None None True False None
        ex_rectangle rect_bad CIRCLE, THEN conjunct1]
    unfolding new by auto
  then show ?thesis
    using rect_checks new
      shape_validation[of "''shape-1''" RECTANGLE rect_bad None None True False None
        ex_rectangle rect_bad CIRCLE]
    by simp
qed

text \<open>
  Claim C2 as stated fails: assigning the geometry \<open>{width: -1, height: 50}\<close> to the
  valid rectangle raises nothing and replaces the geometry; the shape that results does
  not pass validation.
\<close>

theorem shape_mutation_counterexample:
  "validate_geometry ex_rectangle = Inr ex_rectangle \<and>
   validate_by_type RECTANGLE rect_bad = Some InvalidGeometryError \<and>
   Shape_set_geometry ex_rectangle rect_bad = Inr (ex_rectangle\<lparr>geometry := rect_bad\<rparr>) \<and>
   geometry (ex_rectangle\<lparr>geometry := rect_bad\<rparr>) ''width'' = Some (PInt (- 1)) \<and>
   geometry ex_rectangle ''width'' = Some (PFloat 100) \<and>
   validate_geometry (ex_rectangle\<lparr>geometry := rect_bad\<rparr>) = Inl InvalidGeometryError"
  using rect_checks
  by (simp add: validate_geometry_def ex_rectangle_def Shape_set_geometry_def)
     (simp add: rect_bad_def rect_100_50_def)


section \<open>Bounding boxes\<close>
























section \<open>Parent back-references\<close>

lemma set_parent_id_simps:
  "children (groups (set_parent_id h c p) g) = children (groups h g)"
  "group_id (groups (set_parent_id h c p) g) = group_id (groups h g)"
  "node_parent_id (set_parent_id h c p) c' = (if c' = c then p else node_parent_id h c')"
  "node_id (set_parent_id h c p) c' = node_id h c'"
  by (cases c; cases c'; simp add: set_parent_id_def node_parent_id_def node_id_def)+

lemma set_children_simps:
  "children (groups (set_children h g cs) g') = (if g' = g then cs else children (groups h g'))"
  "group_id (groups (set_children h g cs) g') = group_id (groups h g')"
  "node_parent_id (set_children h g cs) c = node_parent_id h c"
  "node_id (set_children h g cs) c = node_id h c"
  by (cases c; simp add: set_children_def node_parent_id_def node_id_def)+

lemma add_child_simps:
  "children (groups (add_child h g c) g') =
     (if g' = g then children (groups h g) @ [c] else children (groups h g'))"
  "group_id (groups (add_child h g c) g') = group_id (groups h g')"
  "node_parent_id (add_child h g c) c' = (if c' = c then Some (group_id (groups h g)) else node_parent_id h c')"
  "node_id (add_child h g c) c' = node_id h c'"
  by (simp_all add: add_child_def Let_def set_parent_id_simps set_children_simps)


lemma consistentD:
  assumes "parent_consistent h"
  shows "distinct (children (groups h g))"
    and "c \<in> set (children (groups h g)) \<Longrightarrow> c \<in> set (children (groups h g')) \<Longrightarrow> g = g'"
    and "c \<in> set (children (groups h g)) \<Longrightarrow> node_parent_id h c = Some (group_id (groups h g))"
    and "(\<And>g. c \<notin> set (children (groups h g))) \<Longrightarrow> node_parent_id h c = None"
  using assms unfolding parent_consistent_def by blast+

lemma consistentI:
  assumes "\<And>g. distinct (children (groups h g))"
    and "\<And>g g' c. c \<in> set (children (groups h g)) \<Longrightarrow> c \<in> set (children (groups h g')) \<Longrightarrow> g = g'"
    and "\<And>g c. c \<in> set (children (groups h g)) \<Longrightarrow> node_parent_id h c = Some (group_id (groups h g))"
    and "\<And>c. (\<And>g. c \<notin> set (children (groups h g))) \<Longrightarrow> node_parent_id h c = None"
  shows "parent_consistent h"
  using assms unfolding parent_consistent_def by blast

lemma add_child_consistent:
  assumes inv: "parent_consistent h" and det: "node_parent_id h c = None"
  shows "parent_consistent (add_child h g c)"
proof -
  have free: "c \<notin> set (children (groups h g'))" for g'
    using consistentD(3)[OF inv, of c g'] det by auto
  show ?thesis
  proof (rule consistentI)
    fix g1
    show "distinct (children (groups (add_child h g c) g1))"
      using consistentD(1)[OF inv, of g1] free[of g1] by (auto simp: add_child_simps)
  next
    fix g1 g2 c'
    assume "c' \<in> set (children (groups (add_child h g c) g1))"
      and "c' \<in> set (children (groups (add_child h g c) g2))"
    then show "g1 = g2"
      using consistentD(2)[OF inv, of c' g1 g2] free[of g1] free[of g2]
      by (auto simp: add_child_simps split: if_splits)
  next
    fix g1 c'
    assume "c' \<in> set (children (groups (add_child h g c) g1))"
    then show "node_parent_id (add_child h g c) c' = Some (group_id (groups (add_child h g c) g1))"
      using consistentD(3)[OF inv, of c' g1] free[of g1]
      by (auto simp: add_child_simps split: if_splits)
  next
    fix c'
    assume a: "\<And>g1. c' \<notin> set (children (groups (add_child h g c) g1))"
    from a[of g] have ne: "c' \<noteq> c" by (simp add: add_child_simps)
    have "c' \<notin> set (children (groups h g1))" for g1
      using a[of g1] by (auto simp: add_child_simps split: if_splits)
    then have "node_parent_id h c' = None" by (rule consistentD(4)[OF inv])
    then show "node_parent_id (add_child h g c) c' = None" using ne by (simp add: add_child_simps)
  qed
qed

lemma set_list_pop:
  assumes "distinct cs" "i < length cs"
  shows "set (list_pop i cs) = set cs - {cs ! i}" and "distinct (list_pop i cs)"
proof -
  have cs: "cs = take i cs @ cs ! i # drop (Suc i) cs" using assms(2) by (rule id_take_nth_drop)
  have d: "distinct (take i cs @ cs ! i # drop (Suc i) cs)" using assms(1) cs by simp
  then show "distinct (list_pop i cs)" by (simp add: list_pop_def)
  have "set cs = set (take i cs) \<union> {cs ! i} \<union> set (drop (Suc i) cs)"
    using arg_cong[OF cs, of set] by simp
  moreover have "cs ! i \<notin> set (take i cs)" "cs ! i \<notin> set (drop (Suc i) cs)" using d by auto
  ultimately show "set (list_pop i cs) = set cs - {cs ! i}" by (auto simp: list_pop_def)
qed

lemma detach_consistent:
  assumes inv: "parent_consistent h" and i: "i < length (children (groups h g))"
  shows "parent_consistent
           (set_parent_id (set_children h g (list_pop i (children (groups h g))))
              (children (groups h g) ! i) None)"
    (is "parent_consistent ?h'")
proof -
  let ?cs = "children (groups h g)"
  let ?e = "?cs ! i"
  have ch: "children (groups ?h' g1) = (if g1 = g then list_pop i ?cs else children (groups h g1))" for g1
    by (simp add: set_parent_id_simps set_children_simps)
  have gid: "group_id (groups ?h' g1) = group_id (groups h g1)" for g1
    by (simp add: set_parent_id_simps set_children_simps)
  have par: "node_parent_id ?h' c = (if c = ?e then None else node_parent_id h c)" for c
    by (simp add: set_parent_id_simps set_children_simps)
  have pop: "set (list_pop i ?cs) = set ?cs - {?e}" "distinct (list_pop i ?cs)"
    using set_list_pop[OF consistentD(1)[OF inv] i] by simp_all
  have e_in: "?e \<in> set ?cs" using i by simp
  have e_out: "?e \<notin> set (children (groups ?h' g1))" for g1
    using consistentD(2)[OF inv e_in, of g1] by (auto simp: ch pop)
  have sub: "c \<in> set (children (groups ?h' g1)) \<Longrightarrow> c \<in> set (children (groups h g1))" for c g1
    by (auto simp: ch pop split: if_splits)
  show ?thesis
  proof (rule consistentI)
    fix g1
    show "distinct (children (groups ?h' g1))"
      using consistentD(1)[OF inv, of g1] pop(2) by (simp add: ch)
  next
    fix g1 g2 c
    assume "c \<in> set (children (groups ?h' g1))" "c \<in> set (children (groups ?h' g2))"
    then show "g1 = g2" using sub consistentD(2)[OF inv, of c g1 g2] by blast
  next
    fix g1 c
    assume a: "c \<in> set (children (groups ?h' g1))"
    then have "c \<noteq> ?e" using e_out[of g1] by auto
    then show "node_parent_id ?h' c = Some (group_id (groups ?h' g1))"
      using consistentD(3)[OF inv sub[OF a]] by (simp add: par gid)
  next
    fix c
    assume a: "\<And>g1. c \<notin> set (children (groups ?h' g1))"
    show "node_parent_id ?h' c = None"
    proof (cases "c = ?e")
      case True
      then show ?thesis by (simp add: par)
    next
      case False
      have "c \<notin> set (children (groups h g1))" for g1
        using a[of g1] False by (auto simp: ch pop split: if_splits)
      then have "node_parent_id h c = None" by (rule consistentD(4)[OF inv])
      then show ?thesis using False by (simp add: par)
    qed
  qed
qed

lemma find_index_bound: "find_index P xs = Some i \<Longrightarrow> i < length xs \<and> P (xs ! i)"
  using find_index_Some[of P xs i] by simp

lemma remove_child_consistent:
  assumes inv: "parent_consistent h" and eq: "\<And>h a b. eq h a b \<Longrightarrow> a = b"
  shows "parent_consistent (fst (remove_child eq h g arg))"
proof (cases "find_index (child_matches eq h arg) (children (groups h g))")
  case None
  then show ?thesis using inv by (simp add: remove_child_def)
next
  case (Some i)
  from find_index_bound[OF Some] have i: "i < length (children (groups h g))"
    and m: "child_matches eq h arg (children (groups h g) ! i)" by simp_all
  have "(case arg of ByID cid \<Rightarrow> children (groups h g) ! i | ByObj child \<Rightarrow> child) = children (groups h g) ! i"
    using m eq by (cases arg) (auto simp: child_matches_def)
  then have "fst (remove_child eq h g arg) =
      set_parent_id (set_children h g (list_pop i (children (groups h g)))) (children (groups h g) ! i) None"
    using Some by (simp add: remove_child_def Let_def)
  then show ?thesis using detach_consistent[OF inv i] by simp
qed

lemma run_ops_consistent:
  assumes eq: "\<And>h a b. eq h a b \<Longrightarrow> a = b"
  shows "parent_consistent h \<Longrightarrow> adds_detached eq h ops \<Longrightarrow> parent_consistent (run_ops eq h ops)"
proof (induction ops arbitrary: h)
  case Nil
  then show ?case by simp
next
  case (Cons op ops)
  have "parent_consistent (apply_op eq h op)"
  proof (cases op)
    case (AddChild g c)
    then show ?thesis using Cons.prems add_child_consistent[of h c g] by (simp add: apply_op_def)
  next
    case (RemoveChild g arg)
    then show ?thesis using remove_child_consistent[OF Cons.prems(1) eq, where g=g and arg=arg]
      by (simp add: apply_op_def)
  qed
  then show ?case using Cons.IH[of "apply_op eq h op"] Cons.prems(2) by simp
qed

text \<open>
  Claim C4, as the code has it. Start from a state whose back-references are consistent
  with containment and run any sequence of \<open>add_child\<close> and \<open>remove_child\<close> calls in
  which \<open>add_child\<close> is only ever given a node whose \<open>parent_id\<close> is \<open>None\<close> (a node no
  group holds), distinct objects never comparing equal. Then the state stays consistent:
  a node appears at most once in at most one group's children list, its \<open>parent_id\<close> is
  that group's id while it is contained, and its \<open>parent_id\<close> is \<open>None\<close> once removed.
\<close>

theorem parent_consistency_preserved:
  assumes "parent_consistent h" and "\<forall>h a b. eq h a b \<longrightarrow> a = b" and "adds_detached eq h ops"
  shows "parent_consistent (run_ops eq h ops)"
  using run_ops_consistent[of eq h ops] assms by blast

lemma ex_heap_consistent: "parent_consistent ex_heap"
  by (simp add: parent_consistent_def ex_heap_def LayerGroup_new_def Layer_new_def node_parent_id_def
      split: node_ref.splits)

lemma ex_heap_simps:
  "children (groups ex_heap g) = []"
  "node_parent_id ex_heap c = None"
  "group_id (groups ex_heap 20) = ''g1''" "group_id (groups ex_heap 21) = ''g2''"
  "node_id ex_heap (LayerRef 10) = ''a''" "node_id ex_heap (LayerRef 11) = ''b''"
  by (simp_all add: ex_heap_def LayerGroup_new_def Layer_new_def node_parent_id_def node_id_def
      split: node_ref.splits)

lemma remove_child_simps:
  assumes "find_index (child_matches eq h (ByID cid)) (children (groups h g)) = Some i"
  shows "fst (remove_child eq h g (ByID cid)) =
      set_parent_id (set_children h g (list_pop i (children (groups h g)))) (children (groups h g) ! i) None"
  using assms by (simp add: remove_child_def Let_def)

text \<open>The theorem on: add layers \<open>a\<close> and \<open>b\<close> to group \<open>g1\<close>, remove \<open>a\<close> by ID, add
  \<open>a\<close> to group \<open>g2\<close>.\<close>

theorem parent_consistency_preserved_witness:
  "adds_detached no_eq ex_heap reparent_ops \<and>
   children (groups (run_ops no_eq ex_heap reparent_ops) 20) = [LayerRef 11] \<and>
   children (groups (run_ops no_eq ex_heap reparent_ops) 21) = [LayerRef 10] \<and>
   node_parent_id (run_ops no_eq ex_heap reparent_ops) (LayerRef 11) = Some ''g1'' \<and>
   node_parent_id (run_ops no_eq ex_heap reparent_ops) (LayerRef 10) = Some ''g2'' \<and>
   node_parent_id (run_ops no_eq ex_heap reparent_ops) (LayerRef 12) = None"
proof -
  let ?h2 = "add_child (add_child ex_heap 20 (LayerRef 10)) 20 (LayerRef 11)"
  have fi: "find_index (child_matches no_eq ?h2 (ByID ''a'')) (children (groups ?h2 20)) = Some 0"
    by (simp add: add_child_simps ex_heap_simps child_matches_def)
  have h3: "fst (remove_child no_eq ?h2 20 (ByID ''a'')) =
      set_parent_id (set_children ?h2 20 [LayerRef 11]) (LayerRef 10) None"
    unfolding remove_child_simps[OF fi] by (simp add: add_child_simps ex_heap_simps list_pop_def)
  let ?h3 = "set_parent_id (set_children ?h2 20 [LayerRef 11]) (LayerRef 10) None"
  have run: "run_ops no_eq ex_heap reparent_ops = add_child ?h3 21 (LayerRef 10)"
    by (simp add: reparent_ops_def apply_op_def h3)
  have det: "adds_detached no_eq ex_heap reparent_ops"
    by (simp add: reparent_ops_def apply_op_def h3 add_child_simps set_parent_id_simps set_children_simps
        ex_heap_simps)
  have eq: "\<forall>h a b. no_eq h a b \<longrightarrow> a = b" by (simp add: no_eq_def)
  have inv: "parent_consistent (run_ops no_eq ex_heap reparent_ops)"
    using parent_consistency_preserved[OF ex_heap_consistent eq det] .
  have c20: "children (groups (run_ops no_eq ex_heap reparent_ops) 20) = [LayerRef 11]"
    and c21: "children (groups (run_ops no_eq ex_heap reparent_ops) 21) = [LayerRef 10]"
    and ids: "group_id (groups (run_ops no_eq ex_heap reparent_ops) 20) = ''g1''"
      "group_id (groups (run_ops no_eq ex_heap reparent_ops) 21) = ''g2''"
    unfolding run by (simp_all add: add_child_simps set_parent_id_simps set_children_simps ex_heap_simps)
  have p11: "node_parent_id (run_ops no_eq ex_heap reparent_ops) (LayerRef 11) = Some ''g1''"
    using consistentD(3)[OF inv, of "LayerRef 11" 20] c20 ids by simp
  have p10: "node_parent_id (run_ops no_eq ex_heap reparent_ops) (LayerRef 10) = Some ''g2''"
    using consistentD(3)[OF inv, of "LayerRef 10" 21] c21 ids by simp
  have p12: "node_parent_id (run_ops no_eq ex_heap reparent_ops) (LayerRef 12) = None"
    unfolding run by (simp add: add_child_simps set_parent_id_simps set_children_simps ex_heap_simps)
  show ?thesis using det c20 c21 p11 p10 p12 by simp
qed

text \<open>
  Claim C4 as stated fails: \<open>add_child\<close> does not take the node out of the group that
  holds it. Adding layer \<open>a\<close> to group \<open>g1\<close> and then to group \<open>g2\<close> leaves it in both
  children lists, with \<open>parent_id\<close> the id of \<open>g2\<close> although \<open>g1\<close> still contains it.
\<close>

theorem double_add_counterexample:
  "children (groups ex_heap 20) = [] \<and> children (groups ex_heap 21) = [] \<and>
   node_parent_id ex_heap (LayerRef 10) = None \<and>
   LayerRef 10 \<in> set (children (groups (run_ops no_eq ex_heap double_add_ops) 20)) \<and>
   LayerRef 10 \<in> set (children (groups (run_ops no_eq ex_heap double_add_ops) 21)) \<and>
   group_id (groups (run_ops no_eq ex_heap double_add_ops) 20) = ''g1'' \<and>
   node_parent_id (run_ops no_eq ex_heap double_add_ops) (LayerRef 10) = Some ''g2''"
  by (simp add: double_add_ops_def apply_op_def add_child_simps ex_heap_simps)

section \<open>The active layer\<close>

text \<open>
  Claim C3 at a state built by the public operations: the only layer, created inside a
  group, is the active layer and is found from the root. \<open>delete_group\<close> on that group
  succeeds, the layer is no longer found from the root, and \<open>active_layer_id\<close> is still
  the layer's id. \<open>delete_layer\<close> on the layer, from the same state, clears
  \<open>active_layer_id\<close>.
\<close>

theorem delete_group_keeps_active_layer:
  "(case manager_2 of (h, m, l) \<Rightarrow>
      active_layer_id m = Some ''lay'' \<and>
      find_layer_by_id 5 h m ''lay'' = Inr (Some l) \<and>
      (case delete_group no_eq 5 h m ''grp'' of
         Inl e \<Rightarrow> False
       | Inr (h', m', ok) \<Rightarrow>
           ok \<and> active_layer_id m' = Some ''lay'' \<and> find_layer_by_id 5 h' m' ''lay'' = Inr None) \<and>
      (case delete_layer no_eq 5 h m ''lay'' of
         Inl e \<Rightarrow> False
       | Inr (h', m', ok) \<Rightarrow> ok \<and> active_layer_id m' = None \<and> find_layer_by_id 5 h' m' ''lay'' = Inr None))"
  by code_simp


end
